theory Spec2Isabelle
  imports Main
begin

section \<open>The "Translate this" button of matrix-react-sdk\<close>

text \<open>
  The repository holds several revisions of
  \<^verbatim>\<open>src/components/views/messages/TranslateThis.tsx\<close>. Two of them carry the
  upload / detect / translate / poll / download workflow against the Lilt service:
  \<^item> the file under its own name, which sleeps a constant \<^verbatim>\<open>liltPollTimeMs = 1000\<close>
    between polls (the fixed-delay variant, suffix \<open>_fixed\<close> below);
  \<^item> \<^verbatim>\<open>unnamed/part_001\<close>, which polls through \<^verbatim>\<open>pollFor\<close> and \<^verbatim>\<open>sleepTime\<close>
    (the backoff variant, suffix \<open>_backoff\<close> below).
  Functions that exist in both revisions keep the source's name and get the suffix of
  their revision.
\<close>

subsection \<open>Strings\<close>

text \<open>
  \<^verbatim>\<open>String.prototype.toLowerCase\<close>, on the letters A to Z. Every other character is
  left as it is (the platform also folds letters outside ASCII).
\<close>

definition lowerChar :: "char \<Rightarrow> char" where
  "lowerChar c =
     (case map_of (zip ''ABCDEFGHIJKLMNOPQRSTUVWXYZ'' ''abcdefghijklmnopqrstuvwxyz'') c of
        Some l \<Rightarrow> l
      | None \<Rightarrow> c)"

definition toLowerCase :: "string \<Rightarrow> string" where
  "toLowerCase s = map lowerChar s"

text \<open>\<^verbatim>\<open>String.prototype.includes\<close>: the segment occurs as a contiguous run.\<close>

fun startsWith :: "string \<Rightarrow> string \<Rightarrow> bool" where
  "startsWith s [] = True"
| "startsWith [] (p # ps) = False"
| "startsWith (c # cs) (p # ps) = (c = p \<and> startsWith cs ps)"

fun stringIncludes :: "string \<Rightarrow> string \<Rightarrow> bool" where
  "stringIncludes [] seg = (seg = [])"
| "stringIncludes (c # cs) seg = (startsWith (c # cs) seg \<or> stringIncludes cs seg)"

subsection \<open>The eligibility predicate\<close>

text \<open>
  Fixed-delay variant, \<^verbatim>\<open>TranslateThis.tsx\<close> lines 130-133 and 48-50:
  \<^verbatim>\<open>
  function liltShouldOfferTranslation(messageSender, currentUser, _messageText) {
      return (messageSender !== currentUser);
  }
  export function shouldOfferTranslation(messageSender, currentUser, messageText) {
      return liltShouldOfferTranslation(messageSender, currentUser, messageText);
  }
  \<close>
\<close>

definition liltShouldOfferTranslation_fixed :: "string \<Rightarrow> string \<Rightarrow> string \<Rightarrow> bool" where
  "liltShouldOfferTranslation_fixed messageSender currentUser messageText =
     (messageSender \<noteq> currentUser)"

definition shouldOfferTranslation_fixed :: "string \<Rightarrow> string \<Rightarrow> string \<Rightarrow> bool" where
  "shouldOfferTranslation_fixed messageSender currentUser messageText =
     liltShouldOfferTranslation_fixed messageSender currentUser messageText"

text \<open>
  Backoff variant, \<^verbatim>\<open>part_001\<close> lines 132-156 and 48-52:
  \<^verbatim>\<open>
  function liltShouldOfferTranslation(messageText) {
      const lc = messageText.toLowerCase();
      for (const segment of englishSegments) {
          if (lc.includes(segment.toLowerCase())) { return false; }
      }
      return true;
  }
  export function shouldOfferTranslation(messageSender, currentUser, messageText) {
      return messageSender !== currentUser && liltShouldOfferTranslation(messageText);
  }
  \<close>
\<close>

definition englishSegments :: "string list" where
  "englishSegments =
     ['' all '', '' and '', '' from '', '' had '', '' has '',
      '' thanks '', '' that '', '' the '', '' this '', '' yeah '']"

fun segmentLoop :: "string \<Rightarrow> string list \<Rightarrow> bool" where
  "segmentLoop lc [] = True"
| "segmentLoop lc (segment # rest) =
     (if stringIncludes lc (toLowerCase segment) then False else segmentLoop lc rest)"

definition liltShouldOfferTranslation_backoff :: "string \<Rightarrow> bool" where
  "liltShouldOfferTranslation_backoff messageText =
     (let lc = toLowerCase messageText in segmentLoop lc englishSegments)"

definition shouldOfferTranslation_backoff :: "string \<Rightarrow> string \<Rightarrow> string \<Rightarrow> bool" where
  "shouldOfferTranslation_backoff messageSender currentUser messageText =
     (messageSender \<noteq> currentUser \<and> liltShouldOfferTranslation_backoff messageText)"

subsection \<open>Values of the platform\<close>

text \<open>
  A JavaScript value as the workflow meets it: what \<^verbatim>\<open>JSON.parse\<close> builds, and
  \<^verbatim>\<open>undefined\<close>, which reading a missing property gives. Numbers are the integers
  (the workflow does no arithmetic on a number of a response). An object is the list of
  its own properties.
\<close>

datatype jsval =
    JUndefined
  | JNull
  | JBool bool
  | JNum int
  | JStr string
  | JArr "jsval list"
  | JObj "(string \<times> jsval) list"

text \<open>What the source can throw: reading a property of \<^verbatim>\<open>null\<close> or \<^verbatim>\<open>undefined\<close>
  (TypeError), \<^verbatim>\<open>response.json()\<close> on a body that is not JSON (SyntaxError), and a
  \<^verbatim>\<open>fetch\<close> whose promise rejects because no response arrives (NetworkError).\<close>

datatype error = TypeError | SyntaxError | NetworkError

text \<open>
  Property access \<^verbatim>\<open>v[k]\<close> for the keys the workflow reads: \<^verbatim>\<open>id\<close>,
  \<^verbatim>\<open>detected_lang\<close>, \<^verbatim>\<open>status\<close> and the index \<^verbatim>\<open>0\<close>. No prototype defines one of
  them, so on an object the own properties decide, an array and a string answer only
  the index, and a number or a boolean has none of them.
\<close>

fun getProp :: "jsval \<Rightarrow> string \<Rightarrow> error + jsval" where
  "getProp JUndefined k = Inl TypeError"
| "getProp JNull k = Inl TypeError"
| "getProp (JObj props) k = Inr (case map_of props k of Some v \<Rightarrow> v | None \<Rightarrow> JUndefined)"
| "getProp (JArr xs) k =
     Inr (if k = ''0'' then (case xs of [] \<Rightarrow> JUndefined | x # rest \<Rightarrow> x) else JUndefined)"
| "getProp (JStr s) k =
     Inr (if k = ''0'' then (case s of [] \<Rightarrow> JUndefined | c # rest \<Rightarrow> JStr [c]) else JUndefined)"
| "getProp (JBool b) k = Inr JUndefined"
| "getProp (JNum n) k = Inr JUndefined"

text \<open>\<^verbatim>\<open>v == null\<close>: loose equality holds for \<^verbatim>\<open>null\<close> and \<^verbatim>\<open>undefined\<close> only.\<close>

fun looseEqNull :: "jsval \<Rightarrow> bool" where
  "looseEqNull JUndefined = True"
| "looseEqNull JNull = True"
| "looseEqNull v = False"

text \<open>\<^verbatim>\<open>v ?? null\<close>.\<close>

definition orNull :: "jsval \<Rightarrow> jsval" where
  "orNull v = (if looseEqNull v then JNull else v)"

text \<open>The decimal numeral of an integer, which is its text as a property key.\<close>

function showNat :: "nat \<Rightarrow> string" where
  "showNat n =
     (if n < 10 then [''0123456789'' ! n]
      else showNat (n div 10) @ [''0123456789'' ! (n mod 10)])"
  by pat_completeness auto
termination
  by (relation "measure id") auto

definition showInt :: "int \<Rightarrow> string" where
  "showInt i = (if i < 0 then CHR ''-'' # showNat (nat (- i)) else showNat (nat i))"

text \<open>
  The conversion of a value to a string, which \<^verbatim>\<open>obj[v]\<close>, \<^verbatim>\<open>obj.hasOwnProperty(v)\<close>
  and \<^verbatim>\<open>url.replace(placeholder, v)\<close> apply to \<^verbatim>\<open>v\<close>. An array joins its elements
  with commas, \<^verbatim>\<open>null\<close> and \<^verbatim>\<open>undefined\<close> elements as the empty string. An object
  answers with the inherited \<^verbatim>\<open>toString\<close>, unless it has a property of that name of
  its own: a value of JSON is not callable, \<^verbatim>\<open>valueOf\<close> gives no primitive either,
  and the conversion throws a TypeError.
\<close>

fun toJSString :: "jsval \<Rightarrow> error + string"
  and joinElements :: "jsval list \<Rightarrow> error + string" where
  "toJSString JUndefined = Inr ''undefined''"
| "toJSString JNull = Inr ''null''"
| "toJSString (JBool b) = Inr (if b then ''true'' else ''false'')"
| "toJSString (JNum n) = Inr (showInt n)"
| "toJSString (JStr s) = Inr s"
| "toJSString (JArr xs) = joinElements xs"
| "toJSString (JObj props) =
     (case map_of props ''toString'' of
        Some v \<Rightarrow> Inl TypeError
      | None \<Rightarrow> Inr ''[object Object]'')"
| "joinElements [] = Inr []"
| "joinElements (x # xs) =
     (case (if looseEqNull x then Inr [] else toJSString x) of
        Inl e \<Rightarrow> Inl e
      | Inr s \<Rightarrow>
          (case xs of
             [] \<Rightarrow> Inr s
           | y # ys \<Rightarrow>
               (case joinElements xs of
                  Inl e \<Rightarrow> Inl e
                | Inr t \<Rightarrow> Inr (s @ '','' @ t))))"

definition printable :: "jsval \<Rightarrow> bool" where
  "printable v = (case toJSString v of Inl e \<Rightarrow> False | Inr s \<Rightarrow> True)"

subsection \<open>The language-to-memory table\<close>

text \<open>
  \<^verbatim>\<open>const liltMemories = { "fr": 69501, "de": 69706 };\<close> The object literal
  inherits from \<^verbatim>\<open>Object.prototype\<close>, whose property names are listed here; each of
  them is a function or an object, hence truthy.
\<close>

definition liltMemories :: "(string \<times> nat) list" where
  "liltMemories = [(''fr'', 69501), (''de'', 69706)]"

definition objectPrototypeProps :: "string list" where
  "objectPrototypeProps =
     [''constructor'', ''hasOwnProperty'', ''isPrototypeOf'', ''propertyIsEnumerable'',
      ''toLocaleString'', ''toString'', ''valueOf'', ''__proto__'',
      ''__defineGetter__'', ''__defineSetter__'', ''__lookupGetter__'', ''__lookupSetter__'']"

text \<open>What \<^verbatim>\<open>liltMemories[key]\<close> evaluates to: a number of the table, a member
  inherited from \<^verbatim>\<open>Object.prototype\<close>, or \<^verbatim>\<open>undefined\<close>.\<close>

datatype memory = MemoryId nat | Inherited string | NoMemory

definition hasOwnProperty :: "(string \<times> nat) list \<Rightarrow> jsval \<Rightarrow> error + bool" where
  "hasOwnProperty obj key =
     (case toJSString key of
        Inl e \<Rightarrow> Inl e
      | Inr name \<Rightarrow> Inr (case map_of obj name of Some n \<Rightarrow> True | None \<Rightarrow> False))"

definition lookupMemory :: "(string \<times> nat) list \<Rightarrow> jsval \<Rightarrow> error + memory" where
  "lookupMemory obj key =
     (case toJSString key of
        Inl e \<Rightarrow> Inl e
      | Inr name \<Rightarrow>
          Inr (case map_of obj name of
                 Some n \<Rightarrow> MemoryId n
               | None \<Rightarrow> if name \<in> set objectPrototypeProps then Inherited name else NoMemory))"

text \<open>\<^verbatim>\<open>!memoryId\<close> is true for \<^verbatim>\<open>undefined\<close> and for the number zero.\<close>

fun falsy :: "memory \<Rightarrow> bool" where
  "falsy (MemoryId n) = (n = 0)"
| "falsy (Inherited name) = False"
| "falsy NoMemory = True"

subsection \<open>Requests, responses and the trace of a run\<close>

text \<open>
  A request is one of the five \<^verbatim>\<open>liltUrls\<close> with the values that
  \<^verbatim>\<open>String.prototype.replace\<close> puts into its placeholders. The \<^verbatim>\<open>Authorization\<close>
  header is the same on every request and is left out; the API key of the configuration
  is taken to be one that \<^verbatim>\<open>btoa\<close> encodes, so that building the headers does not
  throw.
  \<^item> \<open>Upload text\<close>: POST \<^verbatim>\<open>liltUrls.upload\<close> with the text as body;
  \<^item> \<open>CheckUpload fileId\<close>: GET \<^verbatim>\<open>liltUrls.checkUpload\<close>, FILE_ID replaced;
  \<^item> \<open>Translate memoryId fileId\<close>: POST \<^verbatim>\<open>liltUrls.translate\<close>, MEMORY_ID and FILE_ID
    replaced;
  \<^item> \<open>CheckTranslate translationId\<close>: GET \<^verbatim>\<open>liltUrls.checkTranslate\<close>;
  \<^item> \<open>Download translationId\<close>: GET \<^verbatim>\<open>liltUrls.download\<close>.
\<close>

datatype request =
    Upload string
  | CheckUpload jsval
  | Translate memory jsval
  | CheckTranslate jsval
  | Download jsval

text \<open>
  A response: \<^verbatim>\<open>response.ok\<close>, what \<^verbatim>\<open>await response.json()\<close> gives (\<open>None\<close> when
  the body is not JSON, and the promise rejects) and what \<^verbatim>\<open>await response.text()\<close>
  gives (the body of a response that arrived is taken to be readable as text).
\<close>

record response =
  resp_ok :: bool
  resp_json :: "jsval option"
  resp_text :: string

text \<open>
  The service is any function from the requests made so far and the request at hand to
  the response; \<open>None\<close> when no response arrives.
\<close>

type_synonym service = "request list \<Rightarrow> request \<Rightarrow> response option"

text \<open>The messages of \<^verbatim>\<open>console.warn\<close>, one constructor per message of the source.\<close>

datatype warning =
    FailedUploading             \<comment> \<open>"Failed uploading text to translate."\<close>
  | FailedCheckingUpload        \<comment> \<open>"Failed checking upload of translation text."\<close>
  | ApiUnableToDetect           \<comment> \<open>"API was unable to detect language for translation."\<close>
  | NotSetUp jsval              \<comment> \<open>"Not set up to translate from ${detectedLang}."\<close>
  | FailedRequestingTranslation \<comment> \<open>"Failed requesting translation of uploaded file."\<close>
  | FailedCheckingTranslation   \<comment> \<open>"Failed checking translation status."\<close>
  | FailedDownloading           \<comment> \<open>"Failed downloading translation."\<close>
  | FailedPolling request       \<comment> \<open>"Failed polling ${url}."\<close>
  | GaveUpPolling request       \<comment> \<open>"Gave up polling ${url}."\<close>
  | UnableToDetectLanguage      \<comment> \<open>"Unable to detect the language of this message."\<close>

text \<open>What a run does to the world, in order: the requests it sent, the warnings it
  logged and the delays (in milliseconds) it slept.\<close>

record trace =
  requests :: "request list"
  warnings :: "warning list"
  sleeps :: "nat list"

definition initial :: trace where
  "initial = \<lparr>requests = [], warnings = [], sleeps = []\<rparr>"

text \<open>
  How a block of statements ends: an exception propagates, a \<^verbatim>\<open>return v\<close> leaves
  \<^verbatim>\<open>liltTranslate\<close>, or the block runs to its end with a value.
\<close>

datatype 'a completion = Throws error | Returns jsval | Normal 'a

definition andThen ::
  "'a completion \<times> trace \<Rightarrow> ('a \<Rightarrow> trace \<Rightarrow> 'b completion \<times> trace) \<Rightarrow> 'b completion \<times> trace" where
  "andThen m f =
     (case m of
        (Throws e, st) \<Rightarrow> (Throws e, st)
      | (Returns v, st) \<Rightarrow> (Returns v, st)
      | (Normal x, st) \<Rightarrow> f x st)"

text \<open>The result of a call of \<^verbatim>\<open>liltTranslate\<close>: the exception or the returned value.\<close>

fun functionResult :: "jsval completion \<Rightarrow> error + jsval" where
  "functionResult (Throws e) = Inl e"
| "functionResult (Returns v) = Inr v"
| "functionResult (Normal v) = Inr JUndefined"

definition fetch :: "service \<Rightarrow> request \<Rightarrow> trace \<Rightarrow> (error + response) \<times> trace" where
  "fetch service req st =
     (case service (requests st) req of
        None \<Rightarrow> (Inl NetworkError, st\<lparr>requests := requests st @ [req]\<rparr>)
      | Some r \<Rightarrow> (Inr r, st\<lparr>requests := requests st @ [req]\<rparr>))"

text \<open>\<^verbatim>\<open>await\<close> on the promise of an asynchronous call: its exception propagates.\<close>

definition awaited :: "(error + 'a) \<times> trace \<Rightarrow> 'a completion \<times> trace" where
  "awaited m = (case m of (Inl e, st) \<Rightarrow> (Throws e, st) | (Inr v, st) \<Rightarrow> (Normal v, st))"

definition console_warn :: "warning \<Rightarrow> trace \<Rightarrow> trace" where
  "console_warn w st = st\<lparr>warnings := warnings st @ [w]\<rparr>"

definition sleep :: "nat \<Rightarrow> trace \<Rightarrow> trace" where
  "sleep milliseconds st = st\<lparr>sleeps := sleeps st @ [milliseconds]\<rparr>"

text \<open>\<^verbatim>\<open>await response.json()\<close> followed by a chain of property reads.\<close>

definition jsonOf :: "response \<Rightarrow> error + jsval" where
  "jsonOf r = (case resp_json r of None \<Rightarrow> Inl SyntaxError | Some j \<Rightarrow> Inr j)"

fun readPath :: "error + jsval \<Rightarrow> string list \<Rightarrow> error + jsval" where
  "readPath (Inl e) ks = Inl e"
| "readPath (Inr v) [] = Inr v"
| "readPath (Inr v) (k # ks) = readPath (getProp v k) ks"

definition evaluated :: "error + 'a \<Rightarrow> trace \<Rightarrow> 'a completion \<times> trace" where
  "evaluated x st = (case x of Inl e \<Rightarrow> (Throws e, st) | Inr v \<Rightarrow> (Normal v, st))"

subsection \<open>The URLs\<close>

text \<open>
  \<^verbatim>\<open>template.replace(PLACEHOLDER, v)\<close> for a value \<open>v\<close> of a response: the value is
  converted to a string first, which can throw.
\<close>

definition urlFor :: "(jsval \<Rightarrow> request) \<Rightarrow> jsval \<Rightarrow> error + request" where
  "urlFor endpoint v = (case toJSString v of Inl e \<Rightarrow> Inl e | Inr s \<Rightarrow> Inr (endpoint v))"

text \<open>
  \<^verbatim>\<open>liltUrls.translate.replace("MEMORY_ID", memoryId)\<close>: a number is converted to a
  string. A function is called as the replacer, with \<^verbatim>\<open>this\<close> undefined: the members
  of \<^verbatim>\<open>Object.prototype\<close> listed here convert \<^verbatim>\<open>this\<close> to an object first and throw a
  TypeError; \<^verbatim>\<open>constructor\<close>, \<^verbatim>\<open>toString\<close> and \<^verbatim>\<open>isPrototypeOf\<close> return a value
  that converts to a string, and so does the object \<^verbatim>\<open>__proto__\<close>.
\<close>

definition replacerThrows :: "string list" where
  "replacerThrows =
     [''hasOwnProperty'', ''propertyIsEnumerable'', ''toLocaleString'', ''valueOf'',
      ''__defineGetter__'', ''__defineSetter__'', ''__lookupGetter__'', ''__lookupSetter__'']"

fun memoryReplacement :: "memory \<Rightarrow> error + memory" where
  "memoryReplacement (MemoryId n) = Inr (MemoryId n)"
| "memoryReplacement (Inherited name) =
     (if name \<in> set replacerThrows then Inl TypeError else Inr (Inherited name))"
| "memoryReplacement NoMemory = Inr NoMemory"

text \<open>\<^verbatim>\<open>liltUrls.translate.replace("MEMORY_ID", memoryId).replace("FILE_ID", fileId)\<close>.\<close>

definition translateUrl :: "memory \<Rightarrow> jsval \<Rightarrow> error + request" where
  "translateUrl memoryId fileId =
     (case memoryReplacement memoryId of
        Inl e \<Rightarrow> Inl e
      | Inr m \<Rightarrow> urlFor (Translate m) fileId)"

subsection \<open>The steps both variants share\<close>

definition liltMaxPolls :: nat where
  "liltMaxPolls = 20"

text \<open>
  \<^verbatim>\<open>TranslateThis.tsx\<close> lines 143-148, \<^verbatim>\<open>part_001\<close> lines 198-203:
  \<^verbatim>\<open>
  const responseUpload = await fetch(liltUrls.upload, { ..., method: "POST", body: text });
  if (!responseUpload.ok) {
      console.warn("Failed uploading text to translate.");
      return null;
  }
  const fileId = (await responseUpload.json()).id;
  \<close>
\<close>

definition uploadText :: "service \<Rightarrow> string \<Rightarrow> trace \<Rightarrow> jsval completion \<times> trace" where
  "uploadText service text st =
     andThen (awaited (fetch service (Upload text) st)) (\<lambda>responseUpload st1.
       if \<not> resp_ok responseUpload then (Returns JNull, console_warn FailedUploading st1)
       else evaluated (readPath (jsonOf responseUpload) [''id'']) st1)"

text \<open>
  \<^verbatim>\<open>TranslateThis.tsx\<close> lines 175-183, \<^verbatim>\<open>part_001\<close> lines 226-234:
  \<^verbatim>\<open>
  const responseTranslate = await fetch(
      liltUrls.translate.replace("MEMORY_ID", memoryId).replace("FILE_ID", fileId),
      { headers, method: "POST" });
  if (!responseTranslate.ok) {
      console.warn("Failed requesting translation of uploaded file.");
      return null;
  }
  const translationId = (await responseTranslate.json())[0].id;
  \<close>
\<close>

definition requestTranslation ::
  "service \<Rightarrow> memory \<Rightarrow> jsval \<Rightarrow> trace \<Rightarrow> jsval completion \<times> trace" where
  "requestTranslation service memoryId fileId st =
     andThen (evaluated (translateUrl memoryId fileId) st) (\<lambda>translate st0.
     andThen (awaited (fetch service translate st0)) (\<lambda>responseTranslate st1.
       if \<not> resp_ok responseTranslate
       then (Returns JNull, console_warn FailedRequestingTranslation st1)
       else evaluated (readPath (jsonOf responseTranslate) [''0'', ''id'']) st1))"

text \<open>
  \<^verbatim>\<open>TranslateThis.tsx\<close> lines 204-210, \<^verbatim>\<open>part_001\<close> lines 245-251:
  \<^verbatim>\<open>
  const responseDownload = await fetch(liltUrls.download.replace(...), { headers });
  if (!responseDownload.ok) {
      console.warn("Failed downloading translation.");
      return null;
  }
  return await responseDownload.text();
  \<close>
\<close>

definition downloadTranslation :: "service \<Rightarrow> jsval \<Rightarrow> trace \<Rightarrow> jsval completion \<times> trace" where
  "downloadTranslation service translationId st =
     andThen (evaluated (urlFor Download translationId) st) (\<lambda>download st0.
     andThen (awaited (fetch service download st0)) (\<lambda>responseDownload st1.
       if \<not> resp_ok responseDownload then (Returns JNull, console_warn FailedDownloading st1)
       else (Returns (JStr (resp_text responseDownload)), st1)))"

subsection \<open>The workflow of the fixed-delay variant\<close>

definition liltPollTimeMs_fixed :: nat where
  "liltPollTimeMs_fixed = 1000"

text \<open>
  \<^verbatim>\<open>TranslateThis.tsx\<close> lines 150-164; the arguments are the loop's variables.
  \<^verbatim>\<open>
  let detectedLang = null;
  let checkUploadTries = 0;
  while (detectedLang == null) {
      const responseCheckUpload = await fetch(liltUrls.checkUpload.replace(...), { headers });
      if (!responseCheckUpload.ok) {
          console.warn("Failed checking upload of translation text.");
          return null;
      }
      detectedLang = (await responseCheckUpload.json())[0].detected_lang;
      checkUploadTries++;
      if (checkUploadTries >= liltMaxPolls) { break; }
      await sleep(liltPollTimeMs);
  }
  \<close>
\<close>

function checkUploadLoop ::
  "service \<Rightarrow> jsval \<Rightarrow> jsval \<Rightarrow> nat \<Rightarrow> trace \<Rightarrow> jsval completion \<times> trace" where
  "checkUploadLoop service fileId detectedLang checkUploadTries st =
     (if looseEqNull detectedLang then
        (case urlFor CheckUpload fileId of
           Inl e \<Rightarrow> (Throws e, st)
         | Inr checkUpload \<Rightarrow>
             (case fetch service checkUpload st of
                (Inl e, st1) \<Rightarrow> (Throws e, st1)
              | (Inr responseCheckUpload, st1) \<Rightarrow>
                  if \<not> resp_ok responseCheckUpload
                  then (Returns JNull, console_warn FailedCheckingUpload st1)
                  else (case readPath (jsonOf responseCheckUpload) [''0'', ''detected_lang''] of
                          Inl e \<Rightarrow> (Throws e, st1)
                        | Inr detected \<Rightarrow>
                            if checkUploadTries + 1 \<ge> liltMaxPolls then (Normal detected, st1)
                            else checkUploadLoop service fileId detected (checkUploadTries + 1)
                                   (sleep liltPollTimeMs_fixed st1))))
      else (Normal detectedLang, st))"
  by pat_completeness auto
termination
  by (relation "measure (\<lambda>(service, fileId, detectedLang, checkUploadTries, st).
        liltMaxPolls - checkUploadTries)") auto

text \<open>
  \<^verbatim>\<open>TranslateThis.tsx\<close> lines 165-174:
  \<^verbatim>\<open>
  if (!liltMemories.hasOwnProperty(detectedLang)) {
      if (detectedLang === null) {
          console.warn("API was unable to detect language for translation.");
      } else {
          console.warn(`Not set up to translate from ${detectedLang}.`);
      }
      return null;
  }
  const memoryId = liltMemories[detectedLang];
  \<close>
\<close>

definition resolveMemory_fixed :: "jsval \<Rightarrow> trace \<Rightarrow> memory completion \<times> trace" where
  "resolveMemory_fixed detectedLang st =
     (case hasOwnProperty liltMemories detectedLang of
        Inl e \<Rightarrow> (Throws e, st)
      | Inr own \<Rightarrow>
          if \<not> own then
            (if detectedLang = JNull then (Returns JNull, console_warn ApiUnableToDetect st)
             else (Returns JNull, console_warn (NotSetUp detectedLang) st))
          else evaluated (lookupMemory liltMemories detectedLang) st)"

text \<open>
  \<^verbatim>\<open>TranslateThis.tsx\<close> lines 185-202:
  \<^verbatim>\<open>
  let translateStatus = null;
  let checkTranslateTries = 0;
  while (translateStatus !== "ReadyForDownload") {
      const responseCheckTranslate = await fetch(liltUrls.checkTranslate.replace(...), { headers });
      if (!responseCheckTranslate.ok) {
          console.warn("Failed checking translation status.");
          return null;
      }
      translateStatus = (await responseCheckTranslate.json()).status;
      checkTranslateTries++;
      if (checkTranslateTries >= liltMaxPolls) { break; }
      await sleep(liltPollTimeMs);
  }
  \<close>
\<close>

function checkTranslateLoop ::
  "service \<Rightarrow> jsval \<Rightarrow> jsval \<Rightarrow> nat \<Rightarrow> trace \<Rightarrow> jsval completion \<times> trace" where
  "checkTranslateLoop service translationId translateStatus checkTranslateTries st =
     (if translateStatus \<noteq> JStr ''ReadyForDownload'' then
        (case urlFor CheckTranslate translationId of
           Inl e \<Rightarrow> (Throws e, st)
         | Inr checkTranslate \<Rightarrow>
             (case fetch service checkTranslate st of
                (Inl e, st1) \<Rightarrow> (Throws e, st1)
              | (Inr responseCheckTranslate, st1) \<Rightarrow>
                  if \<not> resp_ok responseCheckTranslate
                  then (Returns JNull, console_warn FailedCheckingTranslation st1)
                  else (case readPath (jsonOf responseCheckTranslate) [''status''] of
                          Inl e \<Rightarrow> (Throws e, st1)
                        | Inr status \<Rightarrow>
                            if checkTranslateTries + 1 \<ge> liltMaxPolls then (Normal status, st1)
                            else checkTranslateLoop service translationId status
                                   (checkTranslateTries + 1) (sleep liltPollTimeMs_fixed st1))))
      else (Normal translateStatus, st))"
  by pat_completeness auto
termination
  by (relation "measure (\<lambda>(service, translationId, translateStatus, checkTranslateTries, st).
        liltMaxPolls - checkTranslateTries)") auto

text \<open>\<^verbatim>\<open>TranslateThis.tsx\<close> lines 135-211, the blocks above in the source's order.\<close>

definition liltTranslate_fixed :: "service \<Rightarrow> string \<Rightarrow> trace \<Rightarrow> (error + jsval) \<times> trace" where
  "liltTranslate_fixed service text st =
     map_prod functionResult id
       (andThen (uploadText service text st) (\<lambda>fileId st1.
        andThen (checkUploadLoop service fileId JNull 0 st1) (\<lambda>detectedLang st2.
        andThen (resolveMemory_fixed detectedLang st2) (\<lambda>memoryId st3.
        andThen (requestTranslation service memoryId fileId st3) (\<lambda>translationId st4.
        andThen (checkTranslateLoop service translationId JNull 0 st4) (\<lambda>translateStatus st5.
        downloadTranslation service translationId st5))))))"

subsection \<open>The workflow of the backoff variant\<close>

definition liltPollTimeMs_backoff :: nat where
  "liltPollTimeMs_backoff = 100"

text \<open>
  \<^verbatim>\<open>part_001\<close> lines 158-160:
  \<^verbatim>\<open>
  function sleepTime(pollNumber) {
      return liltPollTimeMs * Math.min(32, Math.pow(2, pollNumber + 1));
  }
  \<close>
\<close>

definition sleepTime :: "nat \<Rightarrow> nat" where
  "sleepTime pollNumber = liltPollTimeMs_backoff * min 32 (2 ^ (pollNumber + 1))"

text \<open>
  \<^verbatim>\<open>part_001\<close> lines 165-188; \<open>numPolls\<close> is the loop's variable, which the loop
  increments in its body and again in its header.
  \<^verbatim>\<open>
  async function pollFor(url, headers, checkResponse) {
      for (let numPolls = 0; numPolls < liltMaxPolls; numPolls++) {
          const response = await fetch(url, { headers });
          if (!response.ok) {
              console.warn(`Failed polling ${url}.`);
              return null;
          }
          const json = await response.json();
          const answer = checkResponse(json);
          if (answer !== null) { return answer as string; }
          await sleep(sleepTime(numPolls));
          numPolls++;
      }
      console.warn(`Gave up polling ${url}.`);
      return null;
  }
  \<close>
\<close>

function pollForLoop ::
  "service \<Rightarrow> request \<Rightarrow> (jsval \<Rightarrow> error + jsval) \<Rightarrow> nat \<Rightarrow> trace \<Rightarrow> (error + jsval) \<times> trace" where
  "pollForLoop service url checkResponse numPolls st =
     (if numPolls < liltMaxPolls then
        (case fetch service url st of
           (Inl e, st1) \<Rightarrow> (Inl e, st1)
         | (Inr response, st1) \<Rightarrow>
             if \<not> resp_ok response then (Inr JNull, console_warn (FailedPolling url) st1)
             else (case jsonOf response of
                     Inl e \<Rightarrow> (Inl e, st1)
                   | Inr json \<Rightarrow>
                       (case checkResponse json of
                          Inl e \<Rightarrow> (Inl e, st1)
                        | Inr answer \<Rightarrow>
                            if answer \<noteq> JNull then (Inr answer, st1)
                            else pollForLoop service url checkResponse (numPolls + 1 + 1)
                                   (sleep (sleepTime numPolls) st1))))
      else (Inr JNull, console_warn (GaveUpPolling url) st))"
  by pat_completeness auto
termination
  by (relation "measure (\<lambda>(service, url, checkResponse, numPolls, st).
        liltMaxPolls - numPolls)") auto

definition pollFor ::
  "service \<Rightarrow> request \<Rightarrow> (jsval \<Rightarrow> error + jsval) \<Rightarrow> trace \<Rightarrow> (error + jsval) \<times> trace" where
  "pollFor service url checkResponse st = pollForLoop service url checkResponse 0 st"

text \<open>The two \<^verbatim>\<open>checkResponse\<close> arguments, \<^verbatim>\<open>part_001\<close> lines 208 and 239:
  \<^verbatim>\<open>(json) => json[0].detected_lang ?? null\<close> and
  \<^verbatim>\<open>(json) => json[0].status === "ReadyForDownload" ? json[0].status : null\<close>.\<close>

definition checkDetectedLang :: "jsval \<Rightarrow> error + jsval" where
  "checkDetectedLang json =
     (case readPath (Inr json) [''0'', ''detected_lang''] of
        Inl e \<Rightarrow> Inl e
      | Inr v \<Rightarrow> Inr (orNull v))"

definition checkReadyForDownload :: "jsval \<Rightarrow> error + jsval" where
  "checkReadyForDownload json =
     (case readPath (Inr json) [''0'', ''status''] of
        Inl e \<Rightarrow> Inl e
      | Inr v \<Rightarrow> if v = JStr ''ReadyForDownload'' then readPath (Inr json) [''0'', ''status'']
                 else Inr JNull)"

text \<open>
  \<^verbatim>\<open>part_001\<close> lines 211-224:
  \<^verbatim>\<open>
  if (detectedLang === "und") {
      console.warn("Unable to detect the language of this message.");
      return null;
  }
  const memoryId = liltMemories[detectedLang];
  if (!memoryId) {
      if (detectedLang === null) {
          console.warn("API was unable to detect language for translation.");
      } else {
          console.warn(`Not set up to translate from ${detectedLang}.`);
      }
      return null;
  }
  \<close>
\<close>

definition resolveMemory_backoff :: "jsval \<Rightarrow> trace \<Rightarrow> memory completion \<times> trace" where
  "resolveMemory_backoff detectedLang st =
     (if detectedLang = JStr ''und'' then (Returns JNull, console_warn UnableToDetectLanguage st)
      else
        (case lookupMemory liltMemories detectedLang of
           Inl e \<Rightarrow> (Throws e, st)
         | Inr memoryId \<Rightarrow>
             if falsy memoryId then
               (if detectedLang = JNull then (Returns JNull, console_warn ApiUnableToDetect st)
                else (Returns JNull, console_warn (NotSetUp detectedLang) st))
             else (Normal memoryId, st)))"

text \<open>\<^verbatim>\<open>part_001\<close> lines 241-243:
  \<^verbatim>\<open>if (translationStatus !== "ReadyForDownload") { return null; }\<close>\<close>

definition requireReady :: "jsval \<Rightarrow> trace \<Rightarrow> jsval completion \<times> trace" where
  "requireReady translationStatus st =
     (if translationStatus \<noteq> JStr ''ReadyForDownload'' then (Returns JNull, st)
      else (Normal translationStatus, st))"

text \<open>\<^verbatim>\<open>part_001\<close> lines 190-252, the blocks above in the source's order.\<close>

definition liltTranslate_backoff :: "service \<Rightarrow> string \<Rightarrow> trace \<Rightarrow> (error + jsval) \<times> trace" where
  "liltTranslate_backoff service text st =
     map_prod functionResult id
       (andThen (uploadText service text st) (\<lambda>fileId st1.
        andThen (evaluated (urlFor CheckUpload fileId) st1) (\<lambda>checkUpload st1.
        andThen (awaited (pollFor service checkUpload checkDetectedLang st1))
          (\<lambda>detectedLang st2.
        andThen (resolveMemory_backoff detectedLang st2) (\<lambda>memoryId st3.
        andThen (requestTranslation service memoryId fileId st3) (\<lambda>translationId st4.
        andThen (evaluated (urlFor CheckTranslate translationId) st4) (\<lambda>checkTranslate st4.
        andThen (awaited (pollFor service checkTranslate checkReadyForDownload st4))
          (\<lambda>translationStatus st5.
        andThen (requireReady translationStatus st5) (\<lambda>ready st6.
        downloadTranslation service translationId st6)))))))))"

subsection \<open>The click handler\<close>

text \<open>
  \<^verbatim>\<open>enum Status\<close> and the two \<^verbatim>\<open>useState\<close> cells of the component; the
  translation starts as \<^verbatim>\<open>undefined\<close>.
\<close>

datatype Status = Ready | Translating | Translated | Failed

record component =
  status :: Status
  translation :: jsval

definition mounted :: component where
  "mounted = \<lparr>status = Ready, translation = JUndefined\<rparr>"

text \<open>
  \<^verbatim>\<open>TranslateThis.tsx\<close> lines 76-89 (\<^verbatim>\<open>part_001\<close> lines 78-91), over the
  \<^verbatim>\<open>liltTranslate\<close> of the revision:
  \<^verbatim>\<open>
  return async (_ev) => {
      setStatus(Status.Translating);
      setStatus(Status.Translating);
      const translation = await liltTranslate(text);
      if (translation !== null) {
          setTranslation(translation);
          setStatus(Status.Translated);
      } else {
          setTranslation(null);
          setStatus(Status.Failed);
      }
  };
  \<close>
  The result is what the handler's promise settles to, the component's state and the
  trace of the run.
\<close>

definition onTranslateThisClick ::
  "(string \<Rightarrow> trace \<Rightarrow> (error + jsval) \<times> trace) \<Rightarrow> string \<Rightarrow> component \<Rightarrow>
     (error + unit) \<times> component \<times> trace" where
  "onTranslateThisClick liltTranslate text ui =
     (let ui1 = ui\<lparr>status := Translating\<rparr>;
          ui2 = ui1\<lparr>status := Translating\<rparr>
      in case liltTranslate text initial of
           (Inl e, st) \<Rightarrow> (Inl e, ui2, st)
         | (Inr translation', st) \<Rightarrow>
             if translation' \<noteq> JNull
             then (Inr (), ui2\<lparr>translation := translation', status := Translated\<rparr>, st)
             else (Inr (), ui2\<lparr>translation := JNull, status := Failed\<rparr>, st))"

definition onTranslateThisClick_fixed ::
  "service \<Rightarrow> string \<Rightarrow> component \<Rightarrow> (error + unit) \<times> component \<times> trace" where
  "onTranslateThisClick_fixed service text ui =
     onTranslateThisClick (liltTranslate_fixed service) text ui"

definition onTranslateThisClick_backoff ::
  "service \<Rightarrow> string \<Rightarrow> component \<Rightarrow> (error + unit) \<times> component \<times> trace" where
  "onTranslateThisClick_backoff service text ui =
     onTranslateThisClick (liltTranslate_backoff service) text ui"

subsection \<open>Sample services\<close>

text \<open>
  Services for running the workflow on concrete inputs. \<open>sampleService cu ct\<close> answers
  the upload with \<^verbatim>\<open>{"id": 7}\<close>, poll number \<open>i\<close> (from 0) of a check-upload request
  with \<open>cu i\<close>, the translate request with \<^verbatim>\<open>[{"id": 9}]\<close>, poll number \<open>i\<close> of a
  check-translation request with \<open>ct i\<close> and the download with the text \<^verbatim>\<open>Hello\<close>.
\<close>

definition okJson :: "jsval \<Rightarrow> response" where
  "okJson j = \<lparr>resp_ok = True, resp_json = Some j, resp_text = []\<rparr>"

definition okText :: "string \<Rightarrow> response" where
  "okText s = \<lparr>resp_ok = True, resp_json = None, resp_text = s\<rparr>"

definition notOk :: response where
  "notOk = \<lparr>resp_ok = False, resp_json = None, resp_text = []\<rparr>"

definition sampleService :: "(nat \<Rightarrow> response) \<Rightarrow> (nat \<Rightarrow> response) \<Rightarrow> service" where
  "sampleService cu ct h q =
     (case q of
        Upload text \<Rightarrow> Some (okJson (JObj [(''id'', JNum 7)]))
      | CheckUpload fileId \<Rightarrow> Some (cu (count_list h q))
      | Translate memoryId fileId \<Rightarrow> Some (okJson (JArr [JObj [(''id'', JNum 9)]]))
      | CheckTranslate translationId \<Rightarrow> Some (ct (count_list h q))
      | Download translationId \<Rightarrow> Some (okText ''Hello''))"

text \<open>The check-upload answer \<^verbatim>\<open>[{"detected_lang": v}]\<close> and the check-translation
  answers \<^verbatim>\<open>[{"status": s}]\<close> and \<^verbatim>\<open>{"status": s}\<close>.\<close>

definition detectedLang :: "jsval \<Rightarrow> response" where
  "detectedLang v = okJson (JArr [JObj [(''detected_lang'', v)]])"

definition statusInArray :: "string \<Rightarrow> response" where
  "statusInArray s = okJson (JArr [JObj [(''status'', JStr s)]])"

definition statusInObject :: "string \<Rightarrow> response" where
  "statusInObject s = okJson (JObj [(''status'', JStr s)])"

text \<open>A service whose every response is a failure, and one whose upload succeeds with
  a body that is not JSON.\<close>

definition failingService :: service where
  "failingService h q = Some notOk"


subsection \<open>Describing a service\<close>

text \<open>
  \<open>scripted service q rs\<close>: the service answers the request \<open>q\<close> with \<open>rs i\<close> when
  \<open>q\<close> has been sent \<open>i\<close> times before, so \<open>rs i\<close> is the answer to poll number \<open>i\<close>
  (from 0) of \<open>q\<close>. \<open>answers service q r\<close>: it answers \<open>q\<close> with \<open>r\<close> every time.
\<close>

definition scripted :: "service \<Rightarrow> request \<Rightarrow> (nat \<Rightarrow> response) \<Rightarrow> bool" where
  "scripted service q rs = (\<forall>h. service h q = Some (rs (count_list h q)))"

definition answers :: "service \<Rightarrow> request \<Rightarrow> response \<Rightarrow> bool" where
  "answers service q r = (\<forall>h. service h q = Some r)"

text \<open>\<open>reads r path v\<close>: the response is a success and its JSON body holds the value
  \<open>v\<close> at the path.\<close>

definition reads :: "response \<Rightarrow> string list \<Rightarrow> jsval \<Rightarrow> bool" where
  "reads r path v = (resp_ok r \<and> readPath (jsonOf r) path = Inr v)"

text \<open>\<open>answersPoll checkResponse r a\<close>: the response is a success with a JSON body on
  which the \<^verbatim>\<open>checkResponse\<close> argument of \<^verbatim>\<open>pollFor\<close> returns \<open>a\<close>.\<close>

definition answersPoll :: "(jsval \<Rightarrow> error + jsval) \<Rightarrow> response \<Rightarrow> jsval \<Rightarrow> bool" where
  "answersPoll checkResponse r a =
     (resp_ok r \<and> (case jsonOf r of Inl e \<Rightarrow> False | Inr j \<Rightarrow> checkResponse j = Inr a))"

text \<open>
  A well-formed service answers every request, and the body of each success response
  is JSON of the shape the workflow reads: the upload and the translate request are
  answered with an identifier that converts to a string, a check-upload request with a
  detected language (or \<^verbatim>\<open>null\<close>, or none) that converts to a string other than the
  names of \<open>replacerThrows\<close>, a check-translation request with a value that has a status
  where either variant reads it. The body of the download is read as text, and any
  body will do.
\<close>

definition plainLanguage :: "jsval \<Rightarrow> bool" where
  "plainLanguage v =
     (case toJSString v of Inl e \<Rightarrow> False | Inr name \<Rightarrow> name \<notin> set replacerThrows)"





text \<open>The number of check-upload and of check-translation requests in a trace, and
  a bound on both together with a property of every delay slept.\<close>

fun isCheckUpload :: "request \<Rightarrow> bool" where
  "isCheckUpload (CheckUpload fileId) = True"
| "isCheckUpload q = False"

fun isCheckTranslate :: "request \<Rightarrow> bool" where
  "isCheckTranslate (CheckTranslate translationId) = True"
| "isCheckTranslate q = False"

definition checkUploadPolls :: "trace \<Rightarrow> nat" where
  "checkUploadPolls st = length (filter isCheckUpload (requests st))"

definition checkTranslatePolls :: "trace \<Rightarrow> nat" where
  "checkTranslatePolls st = length (filter isCheckTranslate (requests st))"

definition within :: "nat \<Rightarrow> nat \<Rightarrow> (nat \<Rightarrow> bool) \<Rightarrow> trace \<Rightarrow> bool" where
  "within a b delay st =
     (checkUploadPolls st \<le> a \<and> checkTranslatePolls st \<le> b \<and> list_all delay (sleeps st))"

section \<open>Properties of the eligibility predicate\<close>

lemma startsWith_iff: "startsWith s p \<longleftrightarrow> (\<exists>b. s = p @ b)"
  by (induction s p rule: startsWith.induct) auto

lemma includes_iff: "stringIncludes s seg \<longleftrightarrow> (\<exists>a b. s = a @ seg @ b)"
proof (induction s)
  case Nil
  then show ?case by auto
next
  case (Cons c cs)
  show ?case
  proof
    assume "stringIncludes (c # cs) seg"
    then consider "startsWith (c # cs) seg" | "stringIncludes cs seg" by auto
    then show "\<exists>a b. c # cs = a @ seg @ b"
    proof cases
      case 1
      then obtain b where "c # cs = seg @ b" by (auto simp: startsWith_iff)
      then have "c # cs = [] @ seg @ b" by simp
      then show ?thesis by blast
    next
      case 2
      then obtain a b where "cs = a @ seg @ b" using Cons.IH by blast
      then have "c # cs = (c # a) @ seg @ b" by simp
      then show ?thesis by blast
    qed
  next
    assume "\<exists>a b. c # cs = a @ seg @ b"
    then obtain a b where ab: "c # cs = a @ seg @ b" by blast
    show "stringIncludes (c # cs) seg"
    proof (cases a)
      case Nil
      with ab have "startsWith (c # cs) seg" by (auto simp: startsWith_iff)
      then show ?thesis by simp
    next
      case (Cons a0 as)
      with ab have "cs = as @ seg @ b" by simp
      then have "stringIncludes cs seg" using Cons.IH by blast
      then show ?thesis by simp
    qed
  qed
qed

lemma includes_toLowerCase:
  assumes "stringIncludes s seg"
  shows "stringIncludes (toLowerCase s) (toLowerCase seg)"
proof -
  from assms obtain a b where "s = a @ seg @ b" by (auto simp: includes_iff)
  then have "toLowerCase s = toLowerCase a @ toLowerCase seg @ toLowerCase b"
    by (simp add: toLowerCase_def)
  then show ?thesis unfolding includes_iff by blast
qed

lemma segmentLoop_iff:
  "segmentLoop lc segs \<longleftrightarrow> (\<forall>seg\<in>set segs. \<not> stringIncludes lc (toLowerCase seg))"
  by (induction segs) auto

lemma englishSegments_lower: "seg \<in> set englishSegments \<Longrightarrow> toLowerCase seg = seg"
  by (auto simp: englishSegments_def toLowerCase_def lowerChar_def)

lemma segmentLoop_englishSegments:
  "segmentLoop lc englishSegments \<longleftrightarrow> (\<forall>seg\<in>set englishSegments. \<not> stringIncludes lc seg)"
  by (simp add: segmentLoop_iff englishSegments_lower)

text \<open>
  C1, as amended. In the fixed-delay variant \<open>shouldOfferTranslation\<close> is true exactly
  when the sender differs from the current user, and the message text has no influence
  on the result. In the backoff variant a message of the current user is never offered
  translation either, whatever its text.
\<close>

theorem shouldOfferTranslation_fixed_iff:
  "(shouldOfferTranslation_fixed messageSender currentUser messageText \<longleftrightarrow>
      messageSender \<noteq> currentUser) \<and>
   shouldOfferTranslation_fixed messageSender currentUser messageText =
     shouldOfferTranslation_fixed messageSender currentUser otherText \<and>
   \<not> shouldOfferTranslation_backoff currentUser currentUser messageText"
  by (simp add: shouldOfferTranslation_fixed_def liltShouldOfferTranslation_fixed_def
      shouldOfferTranslation_backoff_def)

text \<open>
  C1 as stated fails on the backoff variant: the sender differs from the current user in
  both calls, and the text alone decides the result.
\<close>

theorem shouldOfferTranslation_backoff_text_counterexample:
  "''@alice:example.org'' \<noteq> ''@bob:example.org'' \<and>
   \<not> shouldOfferTranslation_backoff ''@alice:example.org'' ''@bob:example.org''
       ''Where is the cat?'' \<and>
   shouldOfferTranslation_backoff ''@alice:example.org'' ''@bob:example.org''
       ''Bonjour tout le monde''"
  by (simp add: shouldOfferTranslation_backoff_def liltShouldOfferTranslation_backoff_def
      englishSegments_def toLowerCase_def lowerChar_def)

text \<open>
  C10. In the backoff variant \<open>shouldOfferTranslation\<close> is true exactly when the sender
  differs from the current user and the lowercased text contains none of the ten
  segments of \<open>englishSegments\<close>; a text that contains one of the segments is never
  offered translation.
\<close>

theorem shouldOfferTranslation_backoff_iff:
  "(shouldOfferTranslation_backoff messageSender currentUser messageText \<longleftrightarrow>
      messageSender \<noteq> currentUser \<and>
      (\<forall>seg\<in>set englishSegments. \<not> stringIncludes (toLowerCase messageText) seg)) \<and>
   length englishSegments = 10 \<and>
   (\<forall>seg\<in>set englishSegments.
      stringIncludes messageText seg \<longrightarrow>
        \<not> shouldOfferTranslation_backoff messageSender currentUser messageText)"
proof (intro conjI ballI impI)
  show "shouldOfferTranslation_backoff messageSender currentUser messageText \<longleftrightarrow>
      messageSender \<noteq> currentUser \<and>
      (\<forall>seg\<in>set englishSegments. \<not> stringIncludes (toLowerCase messageText) seg)"
    by (simp add: shouldOfferTranslation_backoff_def liltShouldOfferTranslation_backoff_def
        segmentLoop_englishSegments)
  show "length englishSegments = 10"
    by (simp add: englishSegments_def)
next
  fix seg
  assume seg: "seg \<in> set englishSegments" and inc: "stringIncludes messageText seg"
  from inc have "stringIncludes (toLowerCase messageText) (toLowerCase seg)"
    by (rule includes_toLowerCase)
  with seg have "stringIncludes (toLowerCase messageText) seg"
    by (simp add: englishSegments_lower)
  with seg show "\<not> shouldOfferTranslation_backoff messageSender currentUser messageText"
    by (auto simp: shouldOfferTranslation_backoff_def liltShouldOfferTranslation_backoff_def
        segmentLoop_englishSegments)
qed

theorem shouldOfferTranslation_backoff_iff_witness:
  "'' the '' \<in> set englishSegments \<and>
   stringIncludes ''we saw the cat'' '' the '' \<and>
   \<not> shouldOfferTranslation_backoff ''@alice:example.org'' ''@bob:example.org'' ''we saw the cat''"
proof -
  have seg: "'' the '' \<in> set englishSegments"
    by (simp add: englishSegments_def)
  have inc: "stringIncludes ''we saw the cat'' '' the ''"
    by simp
  from seg inc have "\<not> shouldOfferTranslation_backoff ''@alice:example.org'' ''@bob:example.org''
      ''we saw the cat''"
    using shouldOfferTranslation_backoff_iff
      [of "''@alice:example.org''" "''@bob:example.org''" "''we saw the cat''"]
    by blast
  with seg inc show ?thesis by blast
qed

section \<open>The polling loops\<close>

text \<open>
  The loops are unfolded one iteration at a time: \<open>_step\<close> is one iteration on a
  scripted service, \<open>_found\<close> a run that ends when the awaited value arrives and
  \<open>_exhausted\<close> a run that ends on the retry budget.
\<close>

declare checkUploadLoop.simps [simp del] checkTranslateLoop.simps [simp del] pollForLoop.simps [simp del]

lemma fetch_scripted:
  "scripted service q rs \<Longrightarrow>
   fetch service q st = (Inr (rs (count_list (requests st) q)), st\<lparr>requests := requests st @ [q]\<rparr>)"
  by (simp add: scripted_def fetch_def)

lemma fetch_answers:
  "answers service q r \<Longrightarrow> fetch service q st = (Inr r, st\<lparr>requests := requests st @ [q]\<rparr>)"
  by (simp add: answers_def fetch_def)

lemma urlFor_printable: "printable v \<Longrightarrow> urlFor endpoint v = Inr (endpoint v)"
  by (simp add: urlFor_def printable_def split: sum.splits)

lemma checkUploadLoop_done:
  "\<not> looseEqNull d \<Longrightarrow> checkUploadLoop service fileId d t st = (Normal d, st)"
  by (subst checkUploadLoop.simps) simp

lemma checkUploadLoop_step:
  assumes "scripted service (CheckUpload fileId) cu"
    and "count_list (requests st) (CheckUpload fileId) = t"
    and "looseEqNull d0"
    and "reads (cu t) [''0'', ''detected_lang''] v"
    and printable: "printable fileId"
  shows "checkUploadLoop service fileId d0 t st =
     (if liltMaxPolls \<le> Suc t
      then (Normal v, st\<lparr>requests := requests st @ [CheckUpload fileId]\<rparr>)
      else checkUploadLoop service fileId v (Suc t)
             (st\<lparr>requests := requests st @ [CheckUpload fileId],
                 sleeps := sleeps st @ [liltPollTimeMs_fixed]\<rparr>))"
  using assms
  by (subst checkUploadLoop.simps) (simp add: fetch_scripted reads_def sleep_def urlFor_printable)

lemma checkUploadLoop_found:
  assumes "scripted service (CheckUpload fileId) cu"
    and "\<forall>i. t \<le> i \<and> i < k \<longrightarrow> (\<exists>v. looseEqNull v \<and> reads (cu i) [''0'', ''detected_lang''] v)"
    and "reads (cu k) [''0'', ''detected_lang''] d"
    and "\<not> looseEqNull d"
    and "k < liltMaxPolls"
    and "t \<le> k"
    and "count_list (requests st) (CheckUpload fileId) = t"
    and "looseEqNull d0"
    and printable: "printable fileId"
  shows "checkUploadLoop service fileId d0 t st =
     (Normal d,
      st\<lparr>requests := requests st @ replicate (Suc k - t) (CheckUpload fileId),
         sleeps := sleeps st @
           replicate (if Suc k < liltMaxPolls then Suc k - t else k - t) liltPollTimeMs_fixed\<rparr>)"
  using assms(2,6,7,8)
proof (induction "k - t" arbitrary: t st d0)
  case 0
  then have tk: "t = k" by simp
  show ?case
    using assms(1,3,4,5) 0 printable
    by (subst checkUploadLoop_step[where cu=cu and v=d]) (auto simp: tk checkUploadLoop_done)
next
  case (Suc n)
  then have lt: "t < k" by simp
  with Suc.prems obtain v where v: "looseEqNull v" "reads (cu t) [''0'', ''detected_lang''] v"
    by auto
  let ?st = "st\<lparr>requests := requests st @ [CheckUpload fileId],
                 sleeps := sleeps st @ [liltPollTimeMs_fixed]\<rparr>"
  have step: "checkUploadLoop service fileId d0 t st = checkUploadLoop service fileId v (Suc t) ?st"
    using assms(1,5) Suc.prems v lt printable
    by (subst checkUploadLoop_step[where cu=cu and v=v]) auto
  have "checkUploadLoop service fileId v (Suc t) ?st =
     (Normal d,
      ?st\<lparr>requests := requests ?st @ replicate (Suc k - Suc t) (CheckUpload fileId),
         sleeps := sleeps ?st @
           replicate (if Suc k < liltMaxPolls then Suc k - Suc t else k - Suc t) liltPollTimeMs_fixed\<rparr>)"
    using Suc.hyps(2) Suc.prems lt v
    by (intro Suc.hyps(1)) auto
  with step show ?case
    using lt by (auto simp: replicate_append_same Suc_diff_le Suc_diff_Suc simp flip: replicate_Suc)
qed

lemma checkUploadLoop_exhausted:
  assumes "scripted service (CheckUpload fileId) cu"
    and "\<forall>i. t \<le> i \<and> i < liltMaxPolls \<longrightarrow> (\<exists>v. looseEqNull v \<and> reads (cu i) [''0'', ''detected_lang''] v)"
    and "t < liltMaxPolls"
    and "count_list (requests st) (CheckUpload fileId) = t"
    and "looseEqNull d0"
    and printable: "printable fileId"
  shows "\<exists>v. looseEqNull v \<and> reads (cu (liltMaxPolls - Suc 0)) [''0'', ''detected_lang''] v \<and>
     checkUploadLoop service fileId d0 t st =
     (Normal v,
      st\<lparr>requests := requests st @ replicate (liltMaxPolls - t) (CheckUpload fileId),
         sleeps := sleeps st @ replicate (liltMaxPolls - Suc t) liltPollTimeMs_fixed\<rparr>)"
  using assms(2-5)
proof (induction "liltMaxPolls - Suc t" arbitrary: t st d0)
  case 0
  then have t: "Suc t = liltMaxPolls" by simp
  with 0 obtain v where v: "looseEqNull v" "reads (cu t) [''0'', ''detected_lang''] v"
    by auto
  have "checkUploadLoop service fileId d0 t st =
      (Normal v, st\<lparr>requests := requests st @ [CheckUpload fileId]\<rparr>)"
    using assms(1) 0 v t printable
    by (subst checkUploadLoop_step[where cu=cu and v=v]) auto
  with v t show ?case
    by (intro exI[of _ v]) (auto simp flip: t)
next
  case (Suc n)
  then have lt: "Suc t < liltMaxPolls" by simp
  with Suc.prems obtain v where v: "looseEqNull v" "reads (cu t) [''0'', ''detected_lang''] v"
    by auto
  let ?st = "st\<lparr>requests := requests st @ [CheckUpload fileId],
                 sleeps := sleeps st @ [liltPollTimeMs_fixed]\<rparr>"
  have step: "checkUploadLoop service fileId d0 t st = checkUploadLoop service fileId v (Suc t) ?st"
    using assms(1) Suc.prems v lt printable
    by (subst checkUploadLoop_step[where cu=cu and v=v]) auto
  have "\<exists>w. looseEqNull w \<and> reads (cu (liltMaxPolls - Suc 0)) [''0'', ''detected_lang''] w \<and>
     checkUploadLoop service fileId v (Suc t) ?st =
     (Normal w,
      ?st\<lparr>requests := requests ?st @ replicate (liltMaxPolls - Suc t) (CheckUpload fileId),
         sleeps := sleeps ?st @ replicate (liltMaxPolls - Suc (Suc t)) liltPollTimeMs_fixed\<rparr>)"
    using Suc.hyps(2) Suc.prems lt v
    by (intro Suc.hyps(1)) auto
  then obtain w where w: "looseEqNull w" "reads (cu (liltMaxPolls - Suc 0)) [''0'', ''detected_lang''] w"
    and run: "checkUploadLoop service fileId v (Suc t) ?st =
     (Normal w,
      ?st\<lparr>requests := requests ?st @ replicate (liltMaxPolls - Suc t) (CheckUpload fileId),
         sleeps := sleeps ?st @ replicate (liltMaxPolls - Suc (Suc t)) liltPollTimeMs_fixed\<rparr>)"
    by blast
  have n1: "liltMaxPolls - t = Suc (liltMaxPolls - Suc t)" using lt by simp
  have n2: "liltMaxPolls - Suc t = Suc (liltMaxPolls - Suc (Suc t))" using lt by simp
  show ?case
    using w step run
    by (intro exI[of _ w]) (simp add: n1 n2)
qed

lemma checkTranslateLoop_done:
  "d = JStr ''ReadyForDownload'' \<Longrightarrow> checkTranslateLoop service translationId d t st = (Normal d, st)"
  by (subst checkTranslateLoop.simps) simp

lemma checkTranslateLoop_step:
  assumes "scripted service (CheckTranslate translationId) ct"
    and "count_list (requests st) (CheckTranslate translationId) = t"
    and "d0 \<noteq> JStr ''ReadyForDownload''"
    and "reads (ct t) [''status''] v"
    and printable: "printable translationId"
  shows "checkTranslateLoop service translationId d0 t st =
     (if liltMaxPolls \<le> Suc t
      then (Normal v, st\<lparr>requests := requests st @ [CheckTranslate translationId]\<rparr>)
      else checkTranslateLoop service translationId v (Suc t)
             (st\<lparr>requests := requests st @ [CheckTranslate translationId],
                 sleeps := sleeps st @ [liltPollTimeMs_fixed]\<rparr>))"
  using assms
  by (subst checkTranslateLoop.simps) (simp add: fetch_scripted reads_def sleep_def urlFor_printable)

lemma checkTranslateLoop_found:
  assumes "scripted service (CheckTranslate translationId) ct"
    and "\<forall>i. t \<le> i \<and> i < k \<longrightarrow> (\<exists>v. v \<noteq> JStr ''ReadyForDownload'' \<and> reads (ct i) [''status''] v)"
    and "reads (ct k) [''status''] d"
    and "d = JStr ''ReadyForDownload''"
    and "k < liltMaxPolls"
    and "t \<le> k"
    and "count_list (requests st) (CheckTranslate translationId) = t"
    and "d0 \<noteq> JStr ''ReadyForDownload''"
    and printable: "printable translationId"
  shows "checkTranslateLoop service translationId d0 t st =
     (Normal d,
      st\<lparr>requests := requests st @ replicate (Suc k - t) (CheckTranslate translationId),
         sleeps := sleeps st @
           replicate (if Suc k < liltMaxPolls then Suc k - t else k - t) liltPollTimeMs_fixed\<rparr>)"
  using assms(2,6,7,8)
proof (induction "k - t" arbitrary: t st d0)
  case 0
  then have tk: "t = k" by simp
  show ?case
    using assms(1,3,4,5) 0 printable
    by (subst checkTranslateLoop_step[where ct=ct and v=d]) (auto simp: tk checkTranslateLoop_done)
next
  case (Suc n)
  then have lt: "t < k" by simp
  with Suc.prems obtain v where v: "v \<noteq> JStr ''ReadyForDownload''" "reads (ct t) [''status''] v"
    by auto
  let ?st = "st\<lparr>requests := requests st @ [CheckTranslate translationId],
                 sleeps := sleeps st @ [liltPollTimeMs_fixed]\<rparr>"
  have step: "checkTranslateLoop service translationId d0 t st = checkTranslateLoop service translationId v (Suc t) ?st"
    using assms(1,5) Suc.prems v lt printable
    by (subst checkTranslateLoop_step[where ct=ct and v=v]) auto
  have "checkTranslateLoop service translationId v (Suc t) ?st =
     (Normal d,
      ?st\<lparr>requests := requests ?st @ replicate (Suc k - Suc t) (CheckTranslate translationId),
         sleeps := sleeps ?st @
           replicate (if Suc k < liltMaxPolls then Suc k - Suc t else k - Suc t) liltPollTimeMs_fixed\<rparr>)"
    using Suc.hyps(2) Suc.prems lt v
    by (intro Suc.hyps(1)) auto
  with step show ?case
    using lt by (auto simp: replicate_append_same Suc_diff_le Suc_diff_Suc simp flip: replicate_Suc)
qed

lemma checkTranslateLoop_exhausted:
  assumes "scripted service (CheckTranslate translationId) ct"
    and "\<forall>i. t \<le> i \<and> i < liltMaxPolls \<longrightarrow> (\<exists>v. v \<noteq> JStr ''ReadyForDownload'' \<and> reads (ct i) [''status''] v)"
    and "t < liltMaxPolls"
    and "count_list (requests st) (CheckTranslate translationId) = t"
    and "d0 \<noteq> JStr ''ReadyForDownload''"
    and printable: "printable translationId"
  shows "\<exists>v. v \<noteq> JStr ''ReadyForDownload'' \<and> reads (ct (liltMaxPolls - Suc 0)) [''status''] v \<and>
     checkTranslateLoop service translationId d0 t st =
     (Normal v,
      st\<lparr>requests := requests st @ replicate (liltMaxPolls - t) (CheckTranslate translationId),
         sleeps := sleeps st @ replicate (liltMaxPolls - Suc t) liltPollTimeMs_fixed\<rparr>)"
  using assms(2-5)
proof (induction "liltMaxPolls - Suc t" arbitrary: t st d0)
  case 0
  then have t: "Suc t = liltMaxPolls" by simp
  with 0 obtain v where v: "v \<noteq> JStr ''ReadyForDownload''" "reads (ct t) [''status''] v"
    by auto
  have "checkTranslateLoop service translationId d0 t st =
      (Normal v, st\<lparr>requests := requests st @ [CheckTranslate translationId]\<rparr>)"
    using assms(1) 0 v t printable
    by (subst checkTranslateLoop_step[where ct=ct and v=v]) auto
  with v t show ?case
    by (intro exI[of _ v]) (auto simp flip: t)
next
  case (Suc n)
  then have lt: "Suc t < liltMaxPolls" by simp
  with Suc.prems obtain v where v: "v \<noteq> JStr ''ReadyForDownload''" "reads (ct t) [''status''] v"
    by auto
  let ?st = "st\<lparr>requests := requests st @ [CheckTranslate translationId],
                 sleeps := sleeps st @ [liltPollTimeMs_fixed]\<rparr>"
  have step: "checkTranslateLoop service translationId d0 t st = checkTranslateLoop service translationId v (Suc t) ?st"
    using assms(1) Suc.prems v lt printable
    by (subst checkTranslateLoop_step[where ct=ct and v=v]) auto
  have "\<exists>w. w \<noteq> JStr ''ReadyForDownload'' \<and> reads (ct (liltMaxPolls - Suc 0)) [''status''] w \<and>
     checkTranslateLoop service translationId v (Suc t) ?st =
     (Normal w,
      ?st\<lparr>requests := requests ?st @ replicate (liltMaxPolls - Suc t) (CheckTranslate translationId),
         sleeps := sleeps ?st @ replicate (liltMaxPolls - Suc (Suc t)) liltPollTimeMs_fixed\<rparr>)"
    using Suc.hyps(2) Suc.prems lt v
    by (intro Suc.hyps(1)) auto
  then obtain w where w: "w \<noteq> JStr ''ReadyForDownload''" "reads (ct (liltMaxPolls - Suc 0)) [''status''] w"
    and run: "checkTranslateLoop service translationId v (Suc t) ?st =
     (Normal w,
      ?st\<lparr>requests := requests ?st @ replicate (liltMaxPolls - Suc t) (CheckTranslate translationId),
         sleeps := sleeps ?st @ replicate (liltMaxPolls - Suc (Suc t)) liltPollTimeMs_fixed\<rparr>)"
    by blast
  have n1: "liltMaxPolls - t = Suc (liltMaxPolls - Suc t)" using lt by simp
  have n2: "liltMaxPolls - Suc t = Suc (liltMaxPolls - Suc (Suc t))" using lt by simp
  show ?case
    using w step run
    by (intro exI[of _ w]) (simp add: n1 n2)
qed

lemma pollForLoop_step:
  assumes "scripted service q rs"
    and "count_list (requests st) q = p"
    and "answersPoll checkResponse (rs p) a"
    and "n < liltMaxPolls"
  shows "pollForLoop service q checkResponse n st =
     (if a \<noteq> JNull then (Inr a, st\<lparr>requests := requests st @ [q]\<rparr>)
      else pollForLoop service q checkResponse (Suc (Suc n))
             (st\<lparr>requests := requests st @ [q], sleeps := sleeps st @ [sleepTime n]\<rparr>))"
  using assms
  by (subst pollForLoop.simps)
     (auto simp: fetch_scripted answersPoll_def sleep_def split: sum.splits)

lemma pollForLoop_found:
  assumes "scripted service q rs"
    and "\<forall>i. i < m \<longrightarrow> answersPoll checkResponse (rs (p + i)) JNull"
    and "answersPoll checkResponse (rs (p + m)) a"
    and "a \<noteq> JNull"
    and "n + 2 * m < liltMaxPolls"
    and "count_list (requests st) q = p"
  shows "pollForLoop service q checkResponse n st =
     (Inr a,
      st\<lparr>requests := requests st @ replicate (Suc m) q,
         sleeps := sleeps st @ map (\<lambda>j. sleepTime (n + 2 * j)) [0..<m]\<rparr>)"
  using assms(2-6)
proof (induction m arbitrary: n p st)
  case 0
  then show ?case
    using assms(1) by (subst pollForLoop_step[where rs=rs and a=a and p=p]) auto
next
  case (Suc m)
  let ?st = "st\<lparr>requests := requests st @ [q], sleeps := sleeps st @ [sleepTime n]\<rparr>"
  have first: "answersPoll checkResponse (rs p) JNull"
    using Suc.prems(1) by (auto dest: spec[of _ 0])
  have step: "pollForLoop service q checkResponse n st =
      pollForLoop service q checkResponse (Suc (Suc n)) ?st"
    using assms(1) Suc.prems first
    by (subst pollForLoop_step[where rs=rs and a=JNull and p=p]) auto
  have rest: "\<forall>i. i < m \<longrightarrow> answersPoll checkResponse (rs (Suc p + i)) JNull"
    using Suc.prems(1) by (auto dest: spec[of _ "Suc _"])
  have "pollForLoop service q checkResponse (Suc (Suc n)) ?st =
     (Inr a,
      ?st\<lparr>requests := requests ?st @ replicate (Suc m) q,
         sleeps := sleeps ?st @ map (\<lambda>j. sleepTime (Suc (Suc n) + 2 * j)) [0..<m]\<rparr>)"
    using Suc.prems rest
    by (intro Suc.IH[where p="Suc p"]) auto
  with step show ?case
    by (simp add: map_upt_Suc del: upt_Suc)
qed

lemma pollForLoop_exhausted:
  assumes "scripted service q rs"
    and "\<forall>i. n + 2 * i < liltMaxPolls \<longrightarrow> answersPoll checkResponse (rs (p + i)) JNull"
    and "count_list (requests st) q = p"
    and "m = (Suc liltMaxPolls - n) div 2"
  shows "pollForLoop service q checkResponse n st =
     (Inr JNull,
      st\<lparr>requests := requests st @ replicate m q,
         sleeps := sleeps st @ map (\<lambda>j. sleepTime (n + 2 * j)) [0..<m],
         warnings := warnings st @ [GaveUpPolling q]\<rparr>)"
  using assms(2-4)
proof (induction m arbitrary: n p st)
  case 0
  then have "\<not> n < liltMaxPolls" by (simp add: liltMaxPolls_def)
  then show ?case
    by (subst pollForLoop.simps) (simp add: console_warn_def)
next
  case (Suc m)
  then have lt: "n < liltMaxPolls" by (simp add: liltMaxPolls_def)
  let ?st = "st\<lparr>requests := requests st @ [q], sleeps := sleeps st @ [sleepTime n]\<rparr>"
  have first: "answersPoll checkResponse (rs p) JNull"
    using Suc.prems(1) lt by (auto dest: spec[of _ 0])
  have step: "pollForLoop service q checkResponse n st =
      pollForLoop service q checkResponse (Suc (Suc n)) ?st"
    using assms(1) Suc.prems first lt
    by (subst pollForLoop_step[where rs=rs and a=JNull and p=p]) auto
  have rest: "\<forall>i. Suc (Suc n) + 2 * i < liltMaxPolls \<longrightarrow>
      answersPoll checkResponse (rs (Suc p + i)) JNull"
    using Suc.prems(1) by (auto dest: spec[of _ "Suc _"])
  have m: "m = (Suc liltMaxPolls - Suc (Suc n)) div 2"
    using Suc.prems(3) lt by (simp add: liltMaxPolls_def)
  have "pollForLoop service q checkResponse (Suc (Suc n)) ?st =
     (Inr JNull,
      ?st\<lparr>requests := requests ?st @ replicate m q,
         sleeps := sleeps ?st @ map (\<lambda>j. sleepTime (Suc (Suc n) + 2 * j)) [0..<m],
         warnings := warnings ?st @ [GaveUpPolling q]\<rparr>)"
    using Suc.prems rest m
    by (intro Suc.IH[where p="Suc p"]) auto
  with step show ?case
    by (simp add: map_upt_Suc del: upt_Suc)
qed

section \<open>Runs of the workflow\<close>

lemma andThen_simps:
  "andThen (Throws e, st) f = (Throws e, st)"
  "andThen (Returns v, st) f = (Returns v, st)"
  "andThen (Normal x, st) f = f x st"
  by (simp_all add: andThen_def)

lemma uploadText_ok:
  assumes "answers service (Upload text) up" and "reads up [''id''] fileId"
  shows "uploadText service text st = (Normal fileId, st\<lparr>requests := requests st @ [Upload text]\<rparr>)"
  using assms
  by (simp add: uploadText_def fetch_answers awaited_def andThen_simps reads_def evaluated_def)

lemma uploadText_failed:
  assumes "service (requests st) (Upload text) = Some r" and "\<not> resp_ok r"
  shows "uploadText service text st =
    (Returns JNull, st\<lparr>requests := requests st @ [Upload text], warnings := warnings st @ [FailedUploading]\<rparr>)"
  using assms
  by (simp add: uploadText_def fetch_def awaited_def andThen_simps console_warn_def)

lemma requestTranslation_ok:
  assumes "answers service (Translate (MemoryId n) fileId) tr"
    and "reads tr [''0'', ''id''] translationId"
    and "printable fileId"
  shows "requestTranslation service (MemoryId n) fileId st =
    (Normal translationId, st\<lparr>requests := requests st @ [Translate (MemoryId n) fileId]\<rparr>)"
  using assms
  by (simp add: requestTranslation_def translateUrl_def urlFor_printable fetch_answers
      awaited_def andThen_simps reads_def evaluated_def)

lemma downloadTranslation_answered:
  assumes "answers service (Download translationId) dl" and "printable translationId"
  shows "downloadTranslation service translationId st =
    (if resp_ok dl
     then (Returns (JStr (resp_text dl)), st\<lparr>requests := requests st @ [Download translationId]\<rparr>)
     else (Returns JNull, st\<lparr>requests := requests st @ [Download translationId],
             warnings := warnings st @ [FailedDownloading]\<rparr>))"
  using assms
  by (simp add: downloadTranslation_def urlFor_printable fetch_answers awaited_def andThen_simps
      console_warn_def evaluated_def)

lemma lookup_fr: "hasOwnProperty liltMemories (JStr ''fr'') = Inr True"
  "lookupMemory liltMemories (JStr ''fr'') = Inr (MemoryId 69501)"
  by (simp_all add: hasOwnProperty_def lookupMemory_def liltMemories_def)

lemma onTranslateThisClick_returned:
  assumes "liltTranslate text initial = (Inr v, st)"
  shows "onTranslateThisClick liltTranslate text ui =
    (Inr (), ui\<lparr>status := (if v = JNull then Failed else Translated), translation := v\<rparr>, st)"
  using assms by (simp add: onTranslateThisClick_def)

lemma onTranslateThisClick_thrown:
  assumes "liltTranslate text initial = (Inl e, st)"
  shows "onTranslateThisClick liltTranslate text ui = (Inl e, ui\<lparr>status := Translating\<rparr>, st)"
  using assms by (simp add: onTranslateThisClick_def)

lemma click_failed:
  "liltTranslate_fixed service text initial = (Inr JNull, st) \<Longrightarrow>
   onTranslateThisClick_fixed service text ui =
     (Inr (), ui\<lparr>status := Failed, translation := JNull\<rparr>, st)"
  "liltTranslate_backoff service text initial = (Inr JNull, st) \<Longrightarrow>
   onTranslateThisClick_backoff service text ui =
     (Inr (), ui\<lparr>status := Failed, translation := JNull\<rparr>, st)"
  by (simp_all add: onTranslateThisClick_fixed_def onTranslateThisClick_backoff_def
      onTranslateThisClick_returned)

lemma answersPoll_detected:
  "reads r [''0'', ''detected_lang''] v \<Longrightarrow> answersPoll checkDetectedLang r (orNull v)"
  by (auto simp: reads_def answersPoll_def checkDetectedLang_def split: sum.splits)

lemma answersPoll_ready:
  "reads r [''0'', ''status''] v \<Longrightarrow>
   answersPoll checkReadyForDownload r (if v = JStr ''ReadyForDownload'' then v else JNull)"
  by (auto simp: reads_def answersPoll_def checkReadyForDownload_def split: sum.splits)

lemma orNull_simps: "looseEqNull v \<Longrightarrow> orNull v = JNull" "\<not> looseEqNull v \<Longrightarrow> orNull v = v"
  "\<not> looseEqNull v \<Longrightarrow> orNull v \<noteq> JNull"
  by (auto simp: orNull_def)

lemma reads_unique: "reads r path v \<Longrightarrow> reads r path w \<Longrightarrow> v = w"
  by (simp add: reads_def)

lemma resolveMemory_supported:
  assumes "(lang, memoryId) \<in> set liltMemories"
  shows "resolveMemory_fixed (JStr lang) st = (Normal (MemoryId memoryId), st)"
    and "resolveMemory_backoff (JStr lang) st = (Normal (MemoryId memoryId), st)"
  using assms
  by (auto simp: resolveMemory_fixed_def resolveMemory_backoff_def liltMemories_def
      hasOwnProperty_def lookupMemory_def evaluated_def)

lemma resolveMemory_null:
  "resolveMemory_fixed JNull st = (Returns JNull, st\<lparr>warnings := warnings st @ [ApiUnableToDetect]\<rparr>)"
  "resolveMemory_backoff JNull st = (Returns JNull, st\<lparr>warnings := warnings st @ [ApiUnableToDetect]\<rparr>)"
  by (simp_all add: resolveMemory_fixed_def resolveMemory_backoff_def hasOwnProperty_def
      lookupMemory_def liltMemories_def objectPrototypeProps_def console_warn_def evaluated_def)

lemma resolveMemory_und:
  "resolveMemory_fixed (JStr ''und'') st =
     (Returns JNull, st\<lparr>warnings := warnings st @ [NotSetUp (JStr ''und'')]\<rparr>)"
  "resolveMemory_backoff (JStr ''und'') st =
     (Returns JNull, st\<lparr>warnings := warnings st @ [UnableToDetectLanguage]\<rparr>)"
  by (simp_all add: resolveMemory_fixed_def resolveMemory_backoff_def hasOwnProperty_def
      lookupMemory_def liltMemories_def console_warn_def evaluated_def)

lemma resolveMemory_fixed_unsupported:
  assumes "hasOwnProperty liltMemories d = Inr False" and "d \<noteq> JNull"
  shows "resolveMemory_fixed d st = (Returns JNull, st\<lparr>warnings := warnings st @ [NotSetUp d]\<rparr>)"
  using assms by (simp add: resolveMemory_fixed_def console_warn_def)

lemma resolveMemory_backoff_unsupported:
  assumes "lookupMemory liltMemories d = Inr NoMemory" and "d \<noteq> JNull" and "d \<noteq> JStr ''und''"
  shows "resolveMemory_backoff d st = (Returns JNull, st\<lparr>warnings := warnings st @ [NotSetUp d]\<rparr>)"
  using assms by (simp add: resolveMemory_backoff_def console_warn_def)

lemma hasOwnProperty_JStr:
  "hasOwnProperty liltMemories (JStr lang) = Inr (lang \<in> fst ` set liltMemories)"
  by (auto simp: hasOwnProperty_def liltMemories_def)

lemma lookupMemory_JStr:
  "lang \<notin> fst ` set liltMemories \<Longrightarrow> lang \<notin> set objectPrototypeProps \<Longrightarrow>
   lookupMemory liltMemories (JStr lang) = Inr NoMemory"
  by (auto simp: lookupMemory_def liltMemories_def)

lemma printable_simps: "printable (JStr s)" "printable (JNum n)" "printable JNull"
  "printable JUndefined"
  by (simp_all add: printable_def)

text \<open>
  Upload and detection: the run up to the end of the check-upload polling, for any
  continuation \<open>f\<close> of the workflow.
\<close>

lemma fixed_detection:
  assumes up: "answers service (Upload text) up" "reads up [''id''] fileId"
    and cu: "scripted service (CheckUpload fileId) cu"
      "\<forall>i<k. \<exists>v. looseEqNull v \<and> reads (cu i) [''0'', ''detected_lang''] v"
      "reads (cu k) [''0'', ''detected_lang''] d" "\<not> looseEqNull d"
      "k < liltMaxPolls"
    and pr: "printable fileId"
  shows "andThen (uploadText service text initial) (\<lambda>fileId st1.
           andThen (checkUploadLoop service fileId JNull 0 st1) (f fileId)) =
         f fileId d \<lparr>requests = Upload text # replicate (Suc k) (CheckUpload fileId),
                     warnings = [],
                     sleeps = replicate (if Suc k < liltMaxPolls then Suc k else k) liltPollTimeMs_fixed\<rparr>"
proof -
  define st1 where "st1 = initial\<lparr>requests := requests initial @ [Upload text]\<rparr>"
  have 1: "uploadText service text initial = (Normal fileId, st1)"
    unfolding st1_def using up by (rule uploadText_ok)
  have 2: "checkUploadLoop service fileId JNull 0 st1 = (Normal d,
      st1\<lparr>requests := requests st1 @ replicate (Suc k - 0) (CheckUpload fileId),
         sleeps := sleeps st1 @
           replicate (if Suc k < liltMaxPolls then Suc k - 0 else k - 0) liltPollTimeMs_fixed\<rparr>)"
    using cu pr
    by (intro checkUploadLoop_found[where cu=cu]) (auto simp: st1_def initial_def)
  show ?thesis
    by (simp add: 1 2 andThen_simps) (simp add: st1_def initial_def)
qed

lemma fixed_no_detection:
  assumes up: "answers service (Upload text) up" "reads up [''id''] fileId"
    and cu: "scripted service (CheckUpload fileId) cu"
      "\<forall>i<liltMaxPolls. \<exists>v. looseEqNull v \<and> reads (cu i) [''0'', ''detected_lang''] v"
    and pr: "printable fileId"
  shows "\<exists>v. looseEqNull v \<and> reads (cu (liltMaxPolls - Suc 0)) [''0'', ''detected_lang''] v \<and>
         andThen (uploadText service text initial) (\<lambda>fileId st1.
           andThen (checkUploadLoop service fileId JNull 0 st1) (f fileId)) =
         f fileId v \<lparr>requests = Upload text # replicate liltMaxPolls (CheckUpload fileId),
                     warnings = [],
                     sleeps = replicate (liltMaxPolls - Suc 0) liltPollTimeMs_fixed\<rparr>"
proof -
  define st1 where "st1 = initial\<lparr>requests := requests initial @ [Upload text]\<rparr>"
  have 1: "uploadText service text initial = (Normal fileId, st1)"
    unfolding st1_def using up by (rule uploadText_ok)
  have "\<exists>v. looseEqNull v \<and> reads (cu (liltMaxPolls - Suc 0)) [''0'', ''detected_lang''] v \<and>
     checkUploadLoop service fileId JNull 0 st1 = (Normal v,
      st1\<lparr>requests := requests st1 @ replicate (liltMaxPolls - 0) (CheckUpload fileId),
         sleeps := sleeps st1 @ replicate (liltMaxPolls - Suc 0) liltPollTimeMs_fixed\<rparr>)"
    using cu pr
    by (intro checkUploadLoop_exhausted[where cu=cu])
       (auto simp: st1_def initial_def liltMaxPolls_def)
  then obtain v where v: "looseEqNull v"
      "reads (cu (liltMaxPolls - Suc 0)) [''0'', ''detected_lang''] v"
    and 2: "checkUploadLoop service fileId JNull 0 st1 = (Normal v,
      st1\<lparr>requests := requests st1 @ replicate (liltMaxPolls - 0) (CheckUpload fileId),
         sleeps := sleeps st1 @ replicate (liltMaxPolls - Suc 0) liltPollTimeMs_fixed\<rparr>)"
    by blast
  have "andThen (uploadText service text initial) (\<lambda>fileId st1.
           andThen (checkUploadLoop service fileId JNull 0 st1) (f fileId)) =
         f fileId v \<lparr>requests = Upload text # replicate liltMaxPolls (CheckUpload fileId),
                     warnings = [],
                     sleeps = replicate (liltMaxPolls - Suc 0) liltPollTimeMs_fixed\<rparr>"
    by (simp add: 1 2 andThen_simps) (simp add: st1_def initial_def)
  with v show ?thesis by blast
qed

lemma fixed_no_detection_last:
  assumes up: "answers service (Upload text) up" "reads up [''id''] fileId"
    and cu: "scripted service (CheckUpload fileId) cu"
      "\<forall>i<liltMaxPolls. \<exists>v. looseEqNull v \<and> reads (cu i) [''0'', ''detected_lang''] v"
      "reads (cu (liltMaxPolls - Suc 0)) [''0'', ''detected_lang''] v"
    and pr: "printable fileId"
  shows "andThen (uploadText service text initial) (\<lambda>fileId st1.
           andThen (checkUploadLoop service fileId JNull 0 st1) (f fileId)) =
         f fileId v \<lparr>requests = Upload text # replicate liltMaxPolls (CheckUpload fileId),
                     warnings = [],
                     sleeps = replicate (liltMaxPolls - Suc 0) liltPollTimeMs_fixed\<rparr>"
  using fixed_no_detection [OF up cu(1,2) pr, of f] reads_unique [OF cu(3)] by auto

lemma backoff_detection:
  assumes up: "answers service (Upload text) up" "reads up [''id''] fileId"
    and cu: "scripted service (CheckUpload fileId) cu"
      "\<forall>i<k. \<exists>v. looseEqNull v \<and> reads (cu i) [''0'', ''detected_lang''] v"
      "reads (cu k) [''0'', ''detected_lang''] d" "\<not> looseEqNull d"
      "2 * k < liltMaxPolls"
    and pr: "printable fileId"
  shows "andThen (uploadText service text initial) (\<lambda>fileId st1.
           andThen (evaluated (urlFor CheckUpload fileId) st1) (\<lambda>checkUpload st1.
           andThen (awaited (pollFor service checkUpload checkDetectedLang st1)) (f fileId))) =
         f fileId d \<lparr>requests = Upload text # replicate (Suc k) (CheckUpload fileId),
                     warnings = [],
                     sleeps = map (\<lambda>j. sleepTime (2 * j)) [0..<k]\<rparr>"
proof -
  define st1 where "st1 = initial\<lparr>requests := requests initial @ [Upload text]\<rparr>"
  have 1: "uploadText service text initial = (Normal fileId, st1)"
    unfolding st1_def using up by (rule uploadText_ok)
  have pend: "\<forall>i. i < k \<longrightarrow> answersPoll checkDetectedLang (cu (0 + i)) JNull"
  proof (intro allI impI)
    fix i assume "i < k"
    with cu(2) obtain v where "looseEqNull v" "reads (cu i) [''0'', ''detected_lang''] v" by blast
    then show "answersPoll checkDetectedLang (cu (0 + i)) JNull"
      using answersPoll_detected[of "cu i" v] by (simp add: orNull_simps)
  qed
  have found: "answersPoll checkDetectedLang (cu (0 + k)) d"
    using answersPoll_detected[OF cu(3)] cu(4) by (simp add: orNull_simps)
  have 2: "pollForLoop service (CheckUpload fileId) checkDetectedLang 0 st1 = (Inr d,
      st1\<lparr>requests := requests st1 @ replicate (Suc k) (CheckUpload fileId),
         sleeps := sleeps st1 @ map (\<lambda>j. sleepTime (0 + 2 * j)) [0..<k]\<rparr>)"
    using cu(1) pend found cu(4,5)
    by (intro pollForLoop_found[where rs=cu and p=0]) (auto simp: st1_def initial_def)
  show ?thesis
    by (simp add: 1 2 andThen_simps pollFor_def awaited_def evaluated_def urlFor_printable [OF pr])
       (simp add: st1_def initial_def)
qed

lemma backoff_no_detection:
  assumes up: "answers service (Upload text) up" "reads up [''id''] fileId"
    and cu: "scripted service (CheckUpload fileId) cu"
      "\<forall>i. 2 * i < liltMaxPolls \<longrightarrow> (\<exists>v. looseEqNull v \<and> reads (cu i) [''0'', ''detected_lang''] v)"
    and pr: "printable fileId"
  shows "andThen (uploadText service text initial) (\<lambda>fileId st1.
           andThen (evaluated (urlFor CheckUpload fileId) st1) (\<lambda>checkUpload st1.
           andThen (awaited (pollFor service checkUpload checkDetectedLang st1)) (f fileId))) =
         f fileId JNull \<lparr>requests = Upload text # replicate (liltMaxPolls div 2) (CheckUpload fileId),
                     warnings = [GaveUpPolling (CheckUpload fileId)],
                     sleeps = map (\<lambda>j. sleepTime (2 * j)) [0..<liltMaxPolls div 2]\<rparr>"
proof -
  define st1 where "st1 = initial\<lparr>requests := requests initial @ [Upload text]\<rparr>"
  have 1: "uploadText service text initial = (Normal fileId, st1)"
    unfolding st1_def using up by (rule uploadText_ok)
  have pend: "\<forall>i. 0 + 2 * i < liltMaxPolls \<longrightarrow> answersPoll checkDetectedLang (cu (0 + i)) JNull"
  proof (intro allI impI)
    fix i assume "0 + 2 * i < liltMaxPolls"
    with cu(2) obtain v where "looseEqNull v" "reads (cu i) [''0'', ''detected_lang''] v" by auto
    then show "answersPoll checkDetectedLang (cu (0 + i)) JNull"
      using answersPoll_detected[of "cu i" v] by (simp add: orNull_simps)
  qed
  have 2: "pollForLoop service (CheckUpload fileId) checkDetectedLang 0 st1 = (Inr JNull,
      st1\<lparr>requests := requests st1 @ replicate (liltMaxPolls div 2) (CheckUpload fileId),
         sleeps := sleeps st1 @ map (\<lambda>j. sleepTime (0 + 2 * j)) [0..<liltMaxPolls div 2],
         warnings := warnings st1 @ [GaveUpPolling (CheckUpload fileId)]\<rparr>)"
    using cu(1) pend
    by (intro pollForLoop_exhausted[where rs=cu and p=0])
       (auto simp: st1_def initial_def liltMaxPolls_def)
  show ?thesis
    by (simp add: 1 2 andThen_simps pollFor_def awaited_def evaluated_def urlFor_printable [OF pr])
       (simp add: st1_def initial_def)
qed

text \<open>
  Translation, polling and download when the status never reaches the ready sentinel.
\<close>

lemma fixed_translation_never_ready:
  assumes tr: "answers service (Translate (MemoryId memoryId) fileId) tr"
      "reads tr [''0'', ''id''] translationId"
    and pr: "printable fileId" "printable translationId"
    and ct: "scripted service (CheckTranslate translationId) ct"
      "\<forall>i<liltMaxPolls. \<exists>v. v \<noteq> JStr ''ReadyForDownload'' \<and> reads (ct i) [''status''] v"
    and fresh: "count_list (requests st) (CheckTranslate translationId) = 0"
    and dl: "answers service (Download translationId) dl"
  shows "andThen (requestTranslation service (MemoryId memoryId) fileId st) (\<lambda>translationId st4.
         andThen (checkTranslateLoop service translationId JNull 0 st4) (\<lambda>translateStatus st5.
         downloadTranslation service translationId st5)) =
     (Returns (if resp_ok dl then JStr (resp_text dl) else JNull),
      st\<lparr>requests := requests st @ Translate (MemoryId memoryId) fileId #
            replicate liltMaxPolls (CheckTranslate translationId) @ [Download translationId],
         sleeps := sleeps st @ replicate (liltMaxPolls - Suc 0) liltPollTimeMs_fixed,
         warnings := warnings st @ (if resp_ok dl then [] else [FailedDownloading])\<rparr>)"
proof -
  define st4 where "st4 = st\<lparr>requests := requests st @ [Translate (MemoryId memoryId) fileId]\<rparr>"
  have 4: "requestTranslation service (MemoryId memoryId) fileId st = (Normal translationId, st4)"
    unfolding st4_def using tr pr(1) by (rule requestTranslation_ok)
  have "\<exists>v. v \<noteq> JStr ''ReadyForDownload'' \<and> reads (ct (liltMaxPolls - Suc 0)) [''status''] v \<and>
     checkTranslateLoop service translationId JNull 0 st4 = (Normal v,
      st4\<lparr>requests := requests st4 @ replicate (liltMaxPolls - 0) (CheckTranslate translationId),
         sleeps := sleeps st4 @ replicate (liltMaxPolls - Suc 0) liltPollTimeMs_fixed\<rparr>)"
    using ct fresh pr
    by (intro checkTranslateLoop_exhausted[where ct=ct])
       (auto simp: st4_def liltMaxPolls_def)
  then obtain v where 5: "checkTranslateLoop service translationId JNull 0 st4 = (Normal v,
      st4\<lparr>requests := requests st4 @ replicate (liltMaxPolls - 0) (CheckTranslate translationId),
         sleeps := sleeps st4 @ replicate (liltMaxPolls - Suc 0) liltPollTimeMs_fixed\<rparr>)"
    by blast
  show ?thesis
    by (simp add: 4 5 andThen_simps downloadTranslation_answered[OF dl pr(2)]) (simp add: st4_def)
qed

lemma backoff_translation_never_ready:
  assumes tr: "answers service (Translate (MemoryId memoryId) fileId) tr"
      "reads tr [''0'', ''id''] translationId"
    and pr: "printable fileId" "printable translationId"
    and ct: "scripted service (CheckTranslate translationId) ct"
      "\<forall>i. 2 * i < liltMaxPolls \<longrightarrow>
          (\<exists>v. v \<noteq> JStr ''ReadyForDownload'' \<and> reads (ct i) [''0'', ''status''] v)"
    and fresh: "count_list (requests st) (CheckTranslate translationId) = 0"
  shows "andThen (requestTranslation service (MemoryId memoryId) fileId st) (\<lambda>translationId st4.
         andThen (evaluated (urlFor CheckTranslate translationId) st4) (\<lambda>checkTranslate st4.
         andThen (awaited (pollFor service checkTranslate checkReadyForDownload st4))
           (\<lambda>translationStatus st5.
         andThen (requireReady translationStatus st5) (\<lambda>ready st6.
         downloadTranslation service translationId st6)))) =
     (Returns JNull,
      st\<lparr>requests := requests st @ Translate (MemoryId memoryId) fileId #
            replicate (liltMaxPolls div 2) (CheckTranslate translationId),
         sleeps := sleeps st @ map (\<lambda>j. sleepTime (2 * j)) [0..<liltMaxPolls div 2],
         warnings := warnings st @ [GaveUpPolling (CheckTranslate translationId)]\<rparr>)"
proof -
  define st4 where "st4 = st\<lparr>requests := requests st @ [Translate (MemoryId memoryId) fileId]\<rparr>"
  have 4: "requestTranslation service (MemoryId memoryId) fileId st = (Normal translationId, st4)"
    unfolding st4_def using tr pr(1) by (rule requestTranslation_ok)
  have pend: "\<forall>i. 0 + 2 * i < liltMaxPolls \<longrightarrow> answersPoll checkReadyForDownload (ct (0 + i)) JNull"
  proof (intro allI impI)
    fix i assume "0 + 2 * i < liltMaxPolls"
    with ct(2) obtain v where "v \<noteq> JStr ''ReadyForDownload''" "reads (ct i) [''0'', ''status''] v"
      by auto
    then show "answersPoll checkReadyForDownload (ct (0 + i)) JNull"
      using answersPoll_ready[of "ct i" v] by simp
  qed
  have 5: "pollForLoop service (CheckTranslate translationId) checkReadyForDownload 0 st4 = (Inr JNull,
      st4\<lparr>requests := requests st4 @ replicate (liltMaxPolls div 2) (CheckTranslate translationId),
         sleeps := sleeps st4 @ map (\<lambda>j. sleepTime (0 + 2 * j)) [0..<liltMaxPolls div 2],
         warnings := warnings st4 @ [GaveUpPolling (CheckTranslate translationId)]\<rparr>)"
    using ct(1) pend fresh
    by (intro pollForLoop_exhausted[where rs=ct and p=0])
       (auto simp: st4_def liltMaxPolls_def)
  show ?thesis
    by (simp add: 4 5 andThen_simps pollFor_def awaited_def requireReady_def evaluated_def
        urlFor_printable [OF pr(2)]) (simp add: st4_def)
qed

text \<open>
  Whole runs: no language is ever detected; the detected language is turned down; the
  translation never gets ready.
\<close>

lemma never_detected_runs:
  assumes up: "answers service (Upload text) up" "reads up [''id''] fileId"
    and cu: "scripted service (CheckUpload fileId) cu"
    and absent: "\<forall>i<liltMaxPolls. reads (cu i) [''0'', ''detected_lang''] JNull"
    and pr: "printable fileId"
  shows "liltTranslate_fixed service text initial =
      (Inr JNull, \<lparr>requests = Upload text # replicate liltMaxPolls (CheckUpload fileId),
            warnings = [ApiUnableToDetect],
            sleeps = replicate (liltMaxPolls - Suc 0) liltPollTimeMs_fixed\<rparr>)"
    and "liltTranslate_backoff service text initial =
      (Inr JNull, \<lparr>requests = Upload text # replicate (liltMaxPolls div 2) (CheckUpload fileId),
            warnings = [GaveUpPolling (CheckUpload fileId), ApiUnableToDetect],
            sleeps = map (\<lambda>j. sleepTime (2 * j)) [0..<liltMaxPolls div 2]\<rparr>)"
proof -
  have pending: "\<forall>i<liltMaxPolls. \<exists>v. looseEqNull v \<and> reads (cu i) [''0'', ''detected_lang''] v"
    using absent by (auto intro!: exI[of _ JNull])
  have last: "reads (cu (liltMaxPolls - Suc 0)) [''0'', ''detected_lang''] JNull"
    using absent by (simp add: liltMaxPolls_def)
  show "liltTranslate_fixed service text initial =
      (Inr JNull, \<lparr>requests = Upload text # replicate liltMaxPolls (CheckUpload fileId),
            warnings = [ApiUnableToDetect],
            sleeps = replicate (liltMaxPolls - Suc 0) liltPollTimeMs_fixed\<rparr>)"
    unfolding liltTranslate_fixed_def
    by (subst fixed_no_detection_last [OF up cu pending last pr])
       (simp add: resolveMemory_null andThen_simps)
  have pending2: "\<forall>i. 2 * i < liltMaxPolls \<longrightarrow>
      (\<exists>v. looseEqNull v \<and> reads (cu i) [''0'', ''detected_lang''] v)"
    using pending by (simp add: liltMaxPolls_def)
  show "liltTranslate_backoff service text initial =
      (Inr JNull, \<lparr>requests = Upload text # replicate (liltMaxPolls div 2) (CheckUpload fileId),
            warnings = [GaveUpPolling (CheckUpload fileId), ApiUnableToDetect],
            sleeps = map (\<lambda>j. sleepTime (2 * j)) [0..<liltMaxPolls div 2]\<rparr>)"
    unfolding liltTranslate_backoff_def
    by (subst backoff_no_detection [OF up cu pending2 pr])
       (simp add: resolveMemory_null andThen_simps)
qed

lemma rejected_language_runs:
  assumes up: "answers service (Upload text) up" "reads up [''id''] fileId"
    and cu: "scripted service (CheckUpload fileId) cu"
      "\<forall>i<k. \<exists>v. looseEqNull v \<and> reads (cu i) [''0'', ''detected_lang''] v"
      "reads (cu k) [''0'', ''detected_lang''] d" "\<not> looseEqNull d"
      "2 * k < liltMaxPolls"
    and pr: "printable fileId"
    and fixed: "resolveMemory_fixed d = (\<lambda>st. (Returns JNull, st\<lparr>warnings := warnings st @ [w1]\<rparr>))"
    and backoff: "resolveMemory_backoff d = (\<lambda>st. (Returns JNull, st\<lparr>warnings := warnings st @ [w2]\<rparr>))"
  shows "liltTranslate_fixed service text initial =
      (Inr JNull, \<lparr>requests = Upload text # replicate (Suc k) (CheckUpload fileId),
            warnings = [w1],
            sleeps = replicate (Suc k) liltPollTimeMs_fixed\<rparr>)"
    and "liltTranslate_backoff service text initial =
      (Inr JNull, \<lparr>requests = Upload text # replicate (Suc k) (CheckUpload fileId),
            warnings = [w2],
            sleeps = map (\<lambda>j. sleepTime (2 * j)) [0..<k]\<rparr>)"
proof -
  have k: "k < liltMaxPolls" "Suc k < liltMaxPolls"
    using cu(5) by (simp_all add: liltMaxPolls_def)
  show "liltTranslate_fixed service text initial =
      (Inr JNull, \<lparr>requests = Upload text # replicate (Suc k) (CheckUpload fileId),
            warnings = [w1],
            sleeps = replicate (Suc k) liltPollTimeMs_fixed\<rparr>)"
    unfolding liltTranslate_fixed_def
    using k by (subst fixed_detection [OF up cu(1,2,3,4) k(1) pr]) (simp add: fixed andThen_simps)
  show "liltTranslate_backoff service text initial =
      (Inr JNull, \<lparr>requests = Upload text # replicate (Suc k) (CheckUpload fileId),
            warnings = [w2],
            sleeps = map (\<lambda>j. sleepTime (2 * j)) [0..<k]\<rparr>)"
    unfolding liltTranslate_backoff_def
    by (subst backoff_detection [OF up cu(1,2,3,4,5) pr]) (simp add: backoff andThen_simps)
qed

lemma never_ready_runs:
  assumes up: "answers service (Upload text) up" "reads up [''id''] fileId"
    and cu: "scripted service (CheckUpload fileId) cu"
      "\<forall>i<k. \<exists>v. looseEqNull v \<and> reads (cu i) [''0'', ''detected_lang''] v"
      "reads (cu k) [''0'', ''detected_lang''] (JStr lang)"
      "2 * k < liltMaxPolls"
      "(lang, memoryId) \<in> set liltMemories"
    and tr: "answers service (Translate (MemoryId memoryId) fileId) tr"
      "reads tr [''0'', ''id''] translationId"
    and ct: "scripted service (CheckTranslate translationId) ct"
    and pr: "printable fileId" "printable translationId"
  shows "(\<forall>i<liltMaxPolls. \<exists>v. v \<noteq> JStr ''ReadyForDownload'' \<and> reads (ct i) [''status''] v) \<Longrightarrow>
     answers service (Download translationId) dl \<Longrightarrow>
     liltTranslate_fixed service text initial =
       (Inr (if resp_ok dl then JStr (resp_text dl) else JNull),
        \<lparr>requests = Upload text # replicate (Suc k) (CheckUpload fileId) @
           Translate (MemoryId memoryId) fileId #
           replicate liltMaxPolls (CheckTranslate translationId) @ [Download translationId],
         warnings = (if resp_ok dl then [] else [FailedDownloading]),
         sleeps = replicate (Suc k) liltPollTimeMs_fixed @
                  replicate (liltMaxPolls - Suc 0) liltPollTimeMs_fixed\<rparr>)"
    and "(\<forall>i<liltMaxPolls. \<exists>v. v \<noteq> JStr ''ReadyForDownload'' \<and> reads (ct i) [''0'', ''status''] v) \<Longrightarrow>
     liltTranslate_backoff service text initial =
       (Inr JNull,
        \<lparr>requests = Upload text # replicate (Suc k) (CheckUpload fileId) @
           Translate (MemoryId memoryId) fileId #
           replicate (liltMaxPolls div 2) (CheckTranslate translationId),
         warnings = [GaveUpPolling (CheckTranslate translationId)],
         sleeps = map (\<lambda>j. sleepTime (2 * j)) [0..<k] @
                  map (\<lambda>j. sleepTime (2 * j)) [0..<liltMaxPolls div 2]\<rparr>)"
proof -
  have k: "k < liltMaxPolls" "Suc k < liltMaxPolls"
    using cu(4) by (simp_all add: liltMaxPolls_def)
  show "liltTranslate_fixed service text initial =
       (Inr (if resp_ok dl then JStr (resp_text dl) else JNull),
        \<lparr>requests = Upload text # replicate (Suc k) (CheckUpload fileId) @
           Translate (MemoryId memoryId) fileId #
           replicate liltMaxPolls (CheckTranslate translationId) @ [Download translationId],
         warnings = (if resp_ok dl then [] else [FailedDownloading]),
         sleeps = replicate (Suc k) liltPollTimeMs_fixed @
                  replicate (liltMaxPolls - Suc 0) liltPollTimeMs_fixed\<rparr>)"
    if busy: "\<forall>i<liltMaxPolls. \<exists>v. v \<noteq> JStr ''ReadyForDownload'' \<and> reads (ct i) [''status''] v"
      and dl: "answers service (Download translationId) dl"
    unfolding liltTranslate_fixed_def
    apply (subst fixed_detection[OF up cu(1,2,3) _ k(1) pr(1)])
     apply simp
    apply (simp add: resolveMemory_supported[OF cu(5)] andThen_simps split del: if_split)
    apply (subst fixed_translation_never_ready[OF tr pr ct busy _ dl])
     apply simp
    using k apply simp
    done
  show "liltTranslate_backoff service text initial =
       (Inr JNull,
        \<lparr>requests = Upload text # replicate (Suc k) (CheckUpload fileId) @
           Translate (MemoryId memoryId) fileId #
           replicate (liltMaxPolls div 2) (CheckTranslate translationId),
         warnings = [GaveUpPolling (CheckTranslate translationId)],
         sleeps = map (\<lambda>j. sleepTime (2 * j)) [0..<k] @
                  map (\<lambda>j. sleepTime (2 * j)) [0..<liltMaxPolls div 2]\<rparr>)"
    if busy: "\<forall>i<liltMaxPolls. \<exists>v. v \<noteq> JStr ''ReadyForDownload'' \<and> reads (ct i) [''0'', ''status''] v"
    unfolding liltTranslate_backoff_def
    apply (subst backoff_detection[OF up cu(1,2,3) _ cu(4) pr(1)])
     apply simp
    apply (simp add: resolveMemory_supported[OF cu(5)] andThen_simps)
    apply (subst backoff_translation_never_ready[OF tr pr ct])
    using busy apply (simp add: liltMaxPolls_def)
     apply simp
    apply simp
    done
qed

text \<open>
  Runs that end at the detection, one variant at a time. The fixed-delay variant reads
  the detected language of every poll up to \<open>liltMaxPolls\<close>; what it logs when no
  language was detected depends on the last value read, \<^verbatim>\<open>null\<close> or \<^verbatim>\<open>undefined\<close>.
  The backoff variant gives up after \<open>liltMaxPolls div 2\<close> polls.
\<close>

lemma resolveMemory_fixed_absent:
  assumes "looseEqNull v"
  shows "resolveMemory_fixed v st =
    (Returns JNull,
     st\<lparr>warnings := warnings st @ [if v = JNull then ApiUnableToDetect else NotSetUp v]\<rparr>)"
  using assms
  by (cases v)
     (simp_all add: resolveMemory_fixed_def hasOwnProperty_def liltMemories_def console_warn_def)

lemma fixed_never_detected_run:
  assumes up: "answers service (Upload text) up" "reads up [''id''] fileId"
    and cu: "scripted service (CheckUpload fileId) cu"
    and pending: "\<forall>i<liltMaxPolls. \<exists>v. looseEqNull v \<and> reads (cu i) [''0'', ''detected_lang''] v"
    and last: "reads (cu (liltMaxPolls - Suc 0)) [''0'', ''detected_lang''] v"
    and pr: "printable fileId"
  shows "liltTranslate_fixed service text initial =
      (Inr JNull, \<lparr>requests = Upload text # replicate liltMaxPolls (CheckUpload fileId),
            warnings = [if v = JNull then ApiUnableToDetect else NotSetUp v],
            sleeps = replicate (liltMaxPolls - Suc 0) liltPollTimeMs_fixed\<rparr>)"
proof -
  have "liltMaxPolls - Suc 0 < liltMaxPolls"
    by (simp add: liltMaxPolls_def)
  with pending obtain w where "looseEqNull w"
    "reads (cu (liltMaxPolls - Suc 0)) [''0'', ''detected_lang''] w"
    by blast
  with last have absent: "looseEqNull v"
    using reads_unique by blast
  show ?thesis
    unfolding liltTranslate_fixed_def
    by (subst fixed_no_detection_last [OF up cu pending last pr])
       (simp add: resolveMemory_fixed_absent [OF absent] andThen_simps)
qed

lemma fixed_rejected_run:
  assumes up: "answers service (Upload text) up" "reads up [''id''] fileId"
    and cu: "scripted service (CheckUpload fileId) cu"
      "\<forall>i<k. \<exists>v. looseEqNull v \<and> reads (cu i) [''0'', ''detected_lang''] v"
      "reads (cu k) [''0'', ''detected_lang''] d" "\<not> looseEqNull d"
      "k < liltMaxPolls"
    and pr: "printable fileId"
    and fixed: "resolveMemory_fixed d = (\<lambda>st. (Returns JNull, st\<lparr>warnings := warnings st @ [w]\<rparr>))"
  shows "liltTranslate_fixed service text initial =
      (Inr JNull, \<lparr>requests = Upload text # replicate (Suc k) (CheckUpload fileId),
            warnings = [w],
            sleeps = replicate (if Suc k < liltMaxPolls then Suc k else k) liltPollTimeMs_fixed\<rparr>)"
  unfolding liltTranslate_fixed_def
  by (subst fixed_detection [OF up cu pr]) (simp add: fixed andThen_simps)

lemma backoff_gives_up_run:
  assumes up: "answers service (Upload text) up" "reads up [''id''] fileId"
    and cu: "scripted service (CheckUpload fileId) cu"
    and pending: "\<forall>i. 2 * i < liltMaxPolls \<longrightarrow>
        (\<exists>v. looseEqNull v \<and> reads (cu i) [''0'', ''detected_lang''] v)"
    and pr: "printable fileId"
  shows "liltTranslate_backoff service text initial =
      (Inr JNull, \<lparr>requests = Upload text # replicate (liltMaxPolls div 2) (CheckUpload fileId),
            warnings = [GaveUpPolling (CheckUpload fileId), ApiUnableToDetect],
            sleeps = map (\<lambda>j. sleepTime (2 * j)) [0..<liltMaxPolls div 2]\<rparr>)"
  unfolding liltTranslate_backoff_def
  by (subst backoff_no_detection [OF up cu pending pr])
     (simp add: resolveMemory_null andThen_simps)

text \<open>
  The sample services meet the descriptions above.
\<close>

lemma replicate_numeral_Cons: "replicate (numeral k) x = x # replicate (pred_numeral k) x"
  by (simp add: numeral_eq_Suc)

lemma sample_facts:
  "answers (sampleService cu ct) (Upload text) (okJson (JObj [(''id'', JNum 7)]))"
  "reads (okJson (JObj [(''id'', JNum 7)])) [''id''] (JNum 7)"
  "scripted (sampleService cu ct) (CheckUpload fileId) cu"
  "answers (sampleService cu ct) (Translate memoryId fileId) (okJson (JArr [JObj [(''id'', JNum 9)]]))"
  "reads (okJson (JArr [JObj [(''id'', JNum 9)]])) [''0'', ''id''] (JNum 9)"
  "scripted (sampleService cu ct) (CheckTranslate translationId) ct"
  "answers (sampleService cu ct) (Download translationId) (okText ''Hello'')"
  "resp_ok (okText ''Hello'')"
  "resp_text (okText ''Hello'') = ''Hello''"
  by (simp_all add: answers_def scripted_def sampleService_def reads_def okJson_def okText_def jsonOf_def)

lemma sample_printable: "printable (JNum 7)" "printable (JNum 9)"
  by (simp_all add: printable_def)

lemma sample_reads:
  "reads (detectedLang v) [''0'', ''detected_lang''] v"
  "reads (statusInObject s) [''status''] (JStr s)"
  "reads (statusInArray s) [''0'', ''status''] (JStr s)"
  "reads (statusInArray s) [''status''] JUndefined"
  by (simp_all add: reads_def detectedLang_def statusInObject_def statusInArray_def okJson_def jsonOf_def)

lemma reads_detectedLang:
  "reads (detectedLang v) [''0'', ''detected_lang''] w \<longleftrightarrow> w = v"
  by (auto simp: reads_def detectedLang_def okJson_def jsonOf_def)

lemma sample_never_detected:
  "liltTranslate_backoff (sampleService (\<lambda>i. detectedLang JNull) ct) ''Bonjour'' initial =
     (Inr JNull,
      \<lparr>requests = Upload ''Bonjour'' # replicate 10 (CheckUpload (JNum 7)),
       warnings = [GaveUpPolling (CheckUpload (JNum 7)), ApiUnableToDetect],
       sleeps = [200, 800, 3200, 3200, 3200, 3200, 3200, 3200, 3200, 3200]\<rparr>)"
  using never_detected_runs(2) [OF sample_facts(1,2,3), of "\<lambda>i. detectedLang JNull" ct "''Bonjour''"]
  by (simp add: sample_reads sample_printable liltMaxPolls_def sleepTime_def
      liltPollTimeMs_backoff_def upt_conv_Cons)

lemma sample_never_ready:
  "liltTranslate_backoff
     (sampleService (\<lambda>i. detectedLang (JStr ''fr'')) (\<lambda>i. statusInArray ''InProgress''))
     ''Bonjour'' initial =
     (Inr JNull,
      \<lparr>requests = Upload ''Bonjour'' # CheckUpload (JNum 7) # Translate (MemoryId 69501) (JNum 7) #
         replicate 10 (CheckTranslate (JNum 9)),
       warnings = [GaveUpPolling (CheckTranslate (JNum 9))],
       sleeps = [200, 800, 3200, 3200, 3200, 3200, 3200, 3200, 3200, 3200]\<rparr>)"
proof -
  let ?cu = "\<lambda>i::nat. detectedLang (JStr ''fr'')"
  let ?ct = "\<lambda>i::nat. statusInArray ''InProgress''"
  have pending: "\<forall>i<0. \<exists>v. looseEqNull v \<and> reads (?cu i) [''0'', ''detected_lang''] v"
    by simp
  have found: "reads (?cu 0) [''0'', ''detected_lang''] (JStr ''fr'')"
    by (simp add: sample_reads)
  have k: "2 * 0 < liltMaxPolls"
    by (simp add: liltMaxPolls_def)
  have fr: "(''fr'', 69501) \<in> set liltMemories"
    by (simp add: liltMemories_def)
  have busy0: "\<forall>i<liltMaxPolls. \<exists>v. v \<noteq> JStr ''ReadyForDownload'' \<and>
      reads (?ct i) [''0'', ''status''] v"
    by (auto simp: sample_reads intro!: exI[of _ "JStr ''InProgress''"])
  from never_ready_runs(2) [OF sample_facts(1,2,3) pending found k fr sample_facts(4,5,6)
      sample_printable busy0,
      of "''Bonjour''"]
  show ?thesis
    by (simp add: liltMaxPolls_def sleepTime_def liltPollTimeMs_backoff_def upt_conv_Cons)
qed

section \<open>Services that answer in the expected shape\<close>






lemma plainLanguage_printable: "plainLanguage v \<Longrightarrow> printable v"
  by (simp add: plainLanguage_def printable_def split: sum.splits)


















section \<open>Bounds that hold for every service\<close>

text \<open>
  Whatever the service answers, a polling loop appends to the trace some number of
  copies of its request, within its budget, and some delays. Hence a run of the
  fixed-delay variant sends at most \<open>liltMaxPolls\<close> polls in each phase and sleeps
  1000 ms each time, and a run of the backoff variant sends at most half as many polls
  in each phase and never sleeps longer than 3200 ms.
\<close>

lemma andThen_trace:
  assumes "P (snd m)" and "\<And>x st. P st \<Longrightarrow> Q (snd (f x st))" and "\<And>st. P st \<Longrightarrow> Q st"
  shows "Q (snd (andThen m f))"
  using assms by (cases m; cases "fst m") (auto simp: andThen_def)

lemma checkUploadLoop_trace:
  assumes "t < liltMaxPolls"
  shows "\<exists>m j. m \<le> liltMaxPolls - t \<and> j \<le> m \<and>
     requests (snd (checkUploadLoop service fileId d t st)) =
       requests st @ replicate m (CheckUpload fileId) \<and>
     sleeps (snd (checkUploadLoop service fileId d t st)) =
       sleeps st @ replicate j liltPollTimeMs_fixed"
  using assms
proof (induction service fileId d t st rule: checkUploadLoop.induct)
  case (1 service fileId detectedLang checkUploadTries st)
  let ?q = "CheckUpload fileId"
  let ?R = "checkUploadLoop service fileId detectedLang checkUploadTries st"
  have one: "\<exists>m j. m \<le> liltMaxPolls - checkUploadTries \<and> j \<le> m \<and>
      requests (snd ?R) = requests st @ replicate m ?q \<and>
      sleeps (snd ?R) = sleeps st @ replicate j liltPollTimeMs_fixed"
    if "requests (snd ?R) = requests st @ [?q]" "sleeps (snd ?R) = sleeps st"
    using that "1.prems" by (intro exI[of _ 1] exI[of _ 0]) simp
  show ?case
  proof (cases "looseEqNull detectedLang")
    case False
    then have "?R = (Normal detectedLang, st)"
      by (subst checkUploadLoop.simps) simp
    then show ?thesis
      by (intro exI[of _ 0]) simp
  next
    case True
    show ?thesis
    proof (cases "printable fileId")
      case False
      then obtain e where "urlFor CheckUpload fileId = Inl e"
        by (auto simp: urlFor_def printable_def split: sum.splits)
      with True have "?R = (Throws e, st)"
        by (subst checkUploadLoop.simps) simp
      then show ?thesis
        by (intro exI[of _ 0]) simp
    next
      case pr: True
      note url = urlFor_printable [OF pr, of CheckUpload]
      show ?thesis
      proof (cases "service (requests st) ?q")
        case None
        with True show ?thesis
          by (intro one; subst checkUploadLoop.simps) (simp_all add: url fetch_def)
      next
        case (Some r)
        show ?thesis
        proof (cases "resp_ok r")
          case False
          with True Some show ?thesis
            by (intro one; subst checkUploadLoop.simps) (simp_all add: url fetch_def console_warn_def)
        next
          case ok: True
          show ?thesis
          proof (cases "readPath (jsonOf r) [''0'', ''detected_lang'']")
            case (Inl e)
            with True Some ok show ?thesis
              by (intro one; subst checkUploadLoop.simps) (simp_all add: url fetch_def)
          next
            case (Inr w)
            show ?thesis
            proof (cases "liltMaxPolls \<le> checkUploadTries + 1")
              case True
              with \<open>looseEqNull detectedLang\<close> Some ok Inr show ?thesis
                by (intro one; subst checkUploadLoop.simps) (simp_all add: url fetch_def)
            next
              case False
              let ?st = "sleep liltPollTimeMs_fixed (st\<lparr>requests := requests st @ [?q]\<rparr>)"
              let ?R' = "checkUploadLoop service fileId w (checkUploadTries + 1) ?st"
              have "\<exists>m j. m \<le> liltMaxPolls - (checkUploadTries + 1) \<and> j \<le> m \<and>
                  requests (snd ?R') = requests ?st @ replicate m ?q \<and>
                  sleeps (snd ?R') = sleeps ?st @ replicate j liltPollTimeMs_fixed"
                using \<open>looseEqNull detectedLang\<close> Some ok Inr False
                by (intro "1.IH") (auto simp: url fetch_def)
              then obtain m j where mj: "m \<le> liltMaxPolls - (checkUploadTries + 1)" "j \<le> m"
                "requests (snd ?R') = requests ?st @ replicate m ?q"
                "sleeps (snd ?R') = sleeps ?st @ replicate j liltPollTimeMs_fixed"
                by blast
              have "?R = ?R'"
                using \<open>looseEqNull detectedLang\<close> Some ok Inr False
                by (subst checkUploadLoop.simps) (simp add: url fetch_def)
              with mj False show ?thesis
                by (intro exI[of _ "Suc m"] exI[of _ "Suc j"]) (simp add: sleep_def)
            qed
          qed
        qed
      qed
    qed
  qed
qed

lemma checkTranslateLoop_trace:
  assumes "t < liltMaxPolls"
  shows "\<exists>m j. m \<le> liltMaxPolls - t \<and> j \<le> m \<and>
     requests (snd (checkTranslateLoop service translationId d t st)) =
       requests st @ replicate m (CheckTranslate translationId) \<and>
     sleeps (snd (checkTranslateLoop service translationId d t st)) =
       sleeps st @ replicate j liltPollTimeMs_fixed"
  using assms
proof (induction service translationId d t st rule: checkTranslateLoop.induct)
  case (1 service translationId translateStatus checkTranslateTries st)
  let ?q = "CheckTranslate translationId"
  let ?R = "checkTranslateLoop service translationId translateStatus checkTranslateTries st"
  have one: "\<exists>m j. m \<le> liltMaxPolls - checkTranslateTries \<and> j \<le> m \<and>
      requests (snd ?R) = requests st @ replicate m ?q \<and>
      sleeps (snd ?R) = sleeps st @ replicate j liltPollTimeMs_fixed"
    if "requests (snd ?R) = requests st @ [?q]" "sleeps (snd ?R) = sleeps st"
    using that "1.prems" by (intro exI[of _ 1] exI[of _ 0]) simp
  show ?case
  proof (cases "translateStatus \<noteq> JStr ''ReadyForDownload''")
    case False
    then have "?R = (Normal translateStatus, st)"
      by (subst checkTranslateLoop.simps) simp
    then show ?thesis
      by (intro exI[of _ 0]) simp
  next
    case True
    show ?thesis
    proof (cases "printable translationId")
      case False
      then obtain e where "urlFor CheckTranslate translationId = Inl e"
        by (auto simp: urlFor_def printable_def split: sum.splits)
      with True have "?R = (Throws e, st)"
        by (subst checkTranslateLoop.simps) simp
      then show ?thesis
        by (intro exI[of _ 0]) simp
    next
      case pr: True
      note url = urlFor_printable [OF pr, of CheckTranslate]
      show ?thesis
      proof (cases "service (requests st) ?q")
        case None
        with True show ?thesis
          by (intro one; subst checkTranslateLoop.simps) (simp_all add: url fetch_def)
      next
        case (Some r)
        show ?thesis
        proof (cases "resp_ok r")
          case False
          with True Some show ?thesis
            by (intro one; subst checkTranslateLoop.simps) (simp_all add: url fetch_def console_warn_def)
        next
          case ok: True
          show ?thesis
          proof (cases "readPath (jsonOf r) [''status'']")
            case (Inl e)
            with True Some ok show ?thesis
              by (intro one; subst checkTranslateLoop.simps) (simp_all add: url fetch_def)
          next
            case (Inr w)
            show ?thesis
            proof (cases "liltMaxPolls \<le> checkTranslateTries + 1")
              case True
              with \<open>translateStatus \<noteq> JStr ''ReadyForDownload''\<close> Some ok Inr show ?thesis
                by (intro one; subst checkTranslateLoop.simps) (simp_all add: url fetch_def)
            next
              case False
              let ?st = "sleep liltPollTimeMs_fixed (st\<lparr>requests := requests st @ [?q]\<rparr>)"
              let ?R' = "checkTranslateLoop service translationId w (checkTranslateTries + 1) ?st"
              have "\<exists>m j. m \<le> liltMaxPolls - (checkTranslateTries + 1) \<and> j \<le> m \<and>
                  requests (snd ?R') = requests ?st @ replicate m ?q \<and>
                  sleeps (snd ?R') = sleeps ?st @ replicate j liltPollTimeMs_fixed"
                using \<open>translateStatus \<noteq> JStr ''ReadyForDownload''\<close> Some ok Inr False
                by (intro "1.IH") (auto simp: url fetch_def)
              then obtain m j where mj: "m \<le> liltMaxPolls - (checkTranslateTries + 1)" "j \<le> m"
                "requests (snd ?R') = requests ?st @ replicate m ?q"
                "sleeps (snd ?R') = sleeps ?st @ replicate j liltPollTimeMs_fixed"
                by blast
              have "?R = ?R'"
                using \<open>translateStatus \<noteq> JStr ''ReadyForDownload''\<close> Some ok Inr False
                by (subst checkTranslateLoop.simps) (simp add: url fetch_def)
              with mj False show ?thesis
                by (intro exI[of _ "Suc m"] exI[of _ "Suc j"]) (simp add: sleep_def)
            qed
          qed
        qed
      qed
    qed
  qed
qed


lemma pollForLoop_trace:
  "\<exists>m ss. m \<le> (Suc liltMaxPolls - n) div 2 \<and> length ss \<le> m \<and>
     list_all (\<lambda>ms. \<exists>k. ms = sleepTime k) ss \<and>
     requests (snd (pollForLoop service q checkResponse n st)) = requests st @ replicate m q \<and>
     sleeps (snd (pollForLoop service q checkResponse n st)) = sleeps st @ ss"
proof (induction service q checkResponse n st rule: pollForLoop.induct)
  case (1 service url checkResponse numPolls st)
  let ?R = "pollForLoop service url checkResponse numPolls st"
  show ?case
  proof (cases "numPolls < liltMaxPolls")
    case False
    then have "?R = (Inr JNull, console_warn (GaveUpPolling url) st)"
      by (subst pollForLoop.simps) simp
    then show ?thesis
      by (intro exI[of _ 0] exI[of _ "[]"]) (simp add: console_warn_def)
  next
    case True
    have one: "\<exists>m ss. m \<le> (Suc liltMaxPolls - numPolls) div 2 \<and> length ss \<le> m \<and>
        list_all (\<lambda>ms. \<exists>k. ms = sleepTime k) ss \<and>
        requests (snd ?R) = requests st @ replicate m url \<and> sleeps (snd ?R) = sleeps st @ ss"
      if "requests (snd ?R) = requests st @ [url]" "sleeps (snd ?R) = sleeps st"
      using that True by (intro exI[of _ 1] exI[of _ "[]"]) (simp add: liltMaxPolls_def)
    show ?thesis
    proof (cases "service (requests st) url")
      case None
      with True show ?thesis
        by (intro one; subst pollForLoop.simps) (simp_all add: fetch_def)
    next
      case (Some r)
      show ?thesis
      proof (cases "resp_ok r")
        case False
        with True Some show ?thesis
          by (intro one; subst pollForLoop.simps) (simp_all add: fetch_def console_warn_def)
      next
        case ok: True
        show ?thesis
        proof (cases "jsonOf r")
          case (Inl e)
          with True Some ok show ?thesis
            by (intro one; subst pollForLoop.simps) (simp_all add: fetch_def)
        next
          case (Inr json)
          show ?thesis
          proof (cases "checkResponse json")
            case (Inl e)
            with True Some ok Inr show ?thesis
              by (intro one; subst pollForLoop.simps) (simp_all add: fetch_def)
          next
            case answer: (Inr a)
            show ?thesis
            proof (cases "a = JNull")
              case False
              with True Some ok Inr answer show ?thesis
                by (intro one; subst pollForLoop.simps) (simp_all add: fetch_def)
            next
              case null: True
              let ?st = "sleep (sleepTime numPolls) (st\<lparr>requests := requests st @ [url]\<rparr>)"
              let ?R' = "pollForLoop service url checkResponse (numPolls + 1 + 1) ?st"
              have "\<exists>m ss. m \<le> (Suc liltMaxPolls - (numPolls + 1 + 1)) div 2 \<and> length ss \<le> m \<and>
                  list_all (\<lambda>ms. \<exists>k. ms = sleepTime k) ss \<and>
                  requests (snd ?R') = requests ?st @ replicate m url \<and>
                  sleeps (snd ?R') = sleeps ?st @ ss"
                using True Some ok Inr answer null
                by (intro "1.IH") (auto simp: fetch_def)
              then obtain m ss where m: "m \<le> (Suc liltMaxPolls - (numPolls + 1 + 1)) div 2"
                "length ss \<le> m" "list_all (\<lambda>ms. \<exists>k. ms = sleepTime k) ss"
                "requests (snd ?R') = requests ?st @ replicate m url"
                "sleeps (snd ?R') = sleeps ?st @ ss"
                by blast
              have "?R = ?R'"
                using True Some ok Inr answer null
                by (subst pollForLoop.simps) (simp add: fetch_def)
              moreover have "Suc m \<le> (Suc liltMaxPolls - numPolls) div 2"
                using m(1) True by (simp add: liltMaxPolls_def)
              ultimately show ?thesis
                using m
                by (intro exI[of _ "Suc m"] exI[of _ "sleepTime numPolls # ss"])
                   (auto simp: sleep_def)
            qed
          qed
        qed
      qed
    qed
  qed
qed

lemma step_traces:
  "requests (snd (uploadText service text st)) = requests st @ [Upload text]"
  "sleeps (snd (uploadText service text st)) = sleeps st"
  "requests (snd (resolveMemory_fixed d st)) = requests st"
  "sleeps (snd (resolveMemory_fixed d st)) = sleeps st"
  "requests (snd (resolveMemory_backoff d st)) = requests st"
  "sleeps (snd (resolveMemory_backoff d st)) = sleeps st"
  "requests (snd (requireReady s st)) = requests st"
  "sleeps (snd (requireReady s st)) = sleeps st"
  by (auto simp: uploadText_def resolveMemory_fixed_def resolveMemory_backoff_def
      requireReady_def fetch_def awaited_def andThen_def evaluated_def console_warn_def
      split: option.splits sum.splits)

text \<open>The translate and the download request are sent unless their URL cannot be built.\<close>

lemma requestTranslation_trace:
  "requests (snd (requestTranslation service memoryId fileId st)) = requests st \<or>
   (\<exists>m. requests (snd (requestTranslation service memoryId fileId st)) =
      requests st @ [Translate m fileId])"
  "sleeps (snd (requestTranslation service memoryId fileId st)) = sleeps st"
  by (auto simp: requestTranslation_def translateUrl_def urlFor_def fetch_def awaited_def
      andThen_def evaluated_def console_warn_def split: option.splits sum.splits)

lemma downloadTranslation_trace:
  "requests (snd (downloadTranslation service translationId st)) = requests st \<or>
   requests (snd (downloadTranslation service translationId st)) =
      requests st @ [Download translationId]"
  "sleeps (snd (downloadTranslation service translationId st)) = sleeps st"
  by (auto simp: downloadTranslation_def urlFor_def fetch_def awaited_def
      andThen_def evaluated_def console_warn_def split: option.splits sum.splits)

lemma andThen_url_trace:
  assumes "P st" and "\<And>st. P st \<Longrightarrow> Q (snd (f (endpoint v) st))" and "\<And>st. P st \<Longrightarrow> Q st"
  shows "Q (snd (andThen (evaluated (urlFor endpoint v) st) f))"
  using assms by (simp add: urlFor_def evaluated_def andThen_def split: sum.splits)

lemma within_steps:
  assumes "within a b delay st"
  shows "within a b delay (snd (uploadText service text st))"
    and "within a b delay (snd (requestTranslation service memoryId fileId st))"
    and "within a b delay (snd (downloadTranslation service translationId st))"
    and "within a b delay (snd (resolveMemory_fixed d st))"
    and "within a b delay (snd (resolveMemory_backoff d st))"
    and "within a b delay (snd (requireReady s st))"
proof -
  show "within a b delay (snd (requestTranslation service memoryId fileId st))"
    using assms requestTranslation_trace [of service memoryId fileId st]
    by (auto simp: within_def checkUploadPolls_def checkTranslatePolls_def)
  show "within a b delay (snd (downloadTranslation service translationId st))"
    using assms downloadTranslation_trace [of service translationId st]
    by (auto simp: within_def checkUploadPolls_def checkTranslatePolls_def)
qed (use assms in \<open>simp_all add: within_def checkUploadPolls_def checkTranslatePolls_def
    step_traces\<close>)

lemma within_mono: "within a b delay st \<Longrightarrow> a \<le> a' \<Longrightarrow> b \<le> b' \<Longrightarrow> within a' b' delay st"
  by (simp add: within_def)

lemma within_checkUploadLoop:
  assumes "within 0 0 (\<lambda>ms. ms = liltPollTimeMs_fixed) st"
  shows "within liltMaxPolls 0 (\<lambda>ms. ms = liltPollTimeMs_fixed)
           (snd (checkUploadLoop service fileId JNull 0 st))"
proof -
  from checkUploadLoop_trace [of 0 service fileId JNull st]
  obtain m j where "m \<le> liltMaxPolls" 
    "requests (snd (checkUploadLoop service fileId JNull 0 st)) =
       requests st @ replicate m (CheckUpload fileId)"
    "sleeps (snd (checkUploadLoop service fileId JNull 0 st)) =
       sleeps st @ replicate j liltPollTimeMs_fixed"
    by (auto simp: liltMaxPolls_def)
  with assms show ?thesis
    by (auto simp: within_def checkUploadPolls_def checkTranslatePolls_def list_all_iff)
qed

lemma within_checkTranslateLoop:
  assumes "within a 0 (\<lambda>ms. ms = liltPollTimeMs_fixed) st"
  shows "within a liltMaxPolls (\<lambda>ms. ms = liltPollTimeMs_fixed)
           (snd (checkTranslateLoop service translationId JNull 0 st))"
proof -
  from checkTranslateLoop_trace [of 0 service translationId JNull st]
  obtain m j where "m \<le> liltMaxPolls" 
    "requests (snd (checkTranslateLoop service translationId JNull 0 st)) =
       requests st @ replicate m (CheckTranslate translationId)"
    "sleeps (snd (checkTranslateLoop service translationId JNull 0 st)) =
       sleeps st @ replicate j liltPollTimeMs_fixed"
    by (auto simp: liltMaxPolls_def)
  with assms show ?thesis
    by (auto simp: within_def checkUploadPolls_def checkTranslatePolls_def list_all_iff)
qed

lemma within_pollFor:
  shows "within 0 0 (\<lambda>ms. \<exists>k. ms = sleepTime k) st \<Longrightarrow>
         within (liltMaxPolls div 2) 0 (\<lambda>ms. \<exists>k. ms = sleepTime k)
           (snd (awaited (pollFor service (CheckUpload fileId) checkResponse st)))"
    and "within a 0 (\<lambda>ms. \<exists>k. ms = sleepTime k) st \<Longrightarrow>
         within a (liltMaxPolls div 2) (\<lambda>ms. \<exists>k. ms = sleepTime k)
           (snd (awaited (pollFor service (CheckTranslate translationId) checkResponse st)))"
proof -
  have snd_awaited: "\<And>m. snd (awaited m) = snd m"
    by (auto simp: awaited_def split: prod.splits sum.splits)
  from pollForLoop_trace [of 0 service "CheckUpload fileId" checkResponse st]
  obtain m ss where "m \<le> liltMaxPolls div 2" "list_all (\<lambda>ms. \<exists>k. ms = sleepTime k) ss"
    "requests (snd (pollForLoop service (CheckUpload fileId) checkResponse 0 st)) =
       requests st @ replicate m (CheckUpload fileId)"
    "sleeps (snd (pollForLoop service (CheckUpload fileId) checkResponse 0 st)) = sleeps st @ ss"
    by (auto simp: liltMaxPolls_def)
  then show "within (liltMaxPolls div 2) 0 (\<lambda>ms. \<exists>k. ms = sleepTime k)
           (snd (awaited (pollFor service (CheckUpload fileId) checkResponse st)))"
    if "within 0 0 (\<lambda>ms. \<exists>k. ms = sleepTime k) st"
    using that
    by (auto simp: within_def checkUploadPolls_def checkTranslatePolls_def pollFor_def snd_awaited)
  from pollForLoop_trace [of 0 service "CheckTranslate translationId" checkResponse st]
  obtain m ss where "m \<le> liltMaxPolls div 2" "list_all (\<lambda>ms. \<exists>k. ms = sleepTime k) ss"
    "requests (snd (pollForLoop service (CheckTranslate translationId) checkResponse 0 st)) =
       requests st @ replicate m (CheckTranslate translationId)"
    "sleeps (snd (pollForLoop service (CheckTranslate translationId) checkResponse 0 st)) =
       sleeps st @ ss"
    by (auto simp: liltMaxPolls_def)
  then show "within a (liltMaxPolls div 2) (\<lambda>ms. \<exists>k. ms = sleepTime k)
           (snd (awaited (pollFor service (CheckTranslate translationId) checkResponse st)))"
    if "within a 0 (\<lambda>ms. \<exists>k. ms = sleepTime k) st"
    using that
    by (auto simp: within_def checkUploadPolls_def checkTranslatePolls_def pollFor_def snd_awaited)
qed

lemma within_initial: "within 0 0 delay initial"
  by (simp add: within_def checkUploadPolls_def checkTranslatePolls_def initial_def)

lemma snd_map_prod_id: "snd (map_prod f id m) = snd m"
  by (cases m) simp

lemma liltTranslate_fixed_within:
  "within liltMaxPolls liltMaxPolls (\<lambda>ms. ms = liltPollTimeMs_fixed)
     (snd (liltTranslate_fixed service text initial))"
  unfolding liltTranslate_fixed_def snd_map_prod_id
  apply (rule andThen_trace [where P = "within 0 0 (\<lambda>ms. ms = liltPollTimeMs_fixed)"])
    apply (rule within_steps(1) [OF within_initial])
   apply (rule andThen_trace [where P = "within liltMaxPolls 0 (\<lambda>ms. ms = liltPollTimeMs_fixed)"])
     apply (erule within_checkUploadLoop)
    apply (rule andThen_trace [where P = "within liltMaxPolls 0 (\<lambda>ms. ms = liltPollTimeMs_fixed)"])
      apply (erule within_steps(4))
     apply (rule andThen_trace [where P = "within liltMaxPolls 0 (\<lambda>ms. ms = liltPollTimeMs_fixed)"])
       apply (erule within_steps(2))
      apply (rule andThen_trace
        [where P = "within liltMaxPolls liltMaxPolls (\<lambda>ms. ms = liltPollTimeMs_fixed)"])
        apply (erule within_checkTranslateLoop)
       apply (erule within_steps(3))
      apply assumption
     apply (erule within_mono; simp)
    apply (erule within_mono; simp)
   apply (erule within_mono; simp)
  apply (erule within_mono; simp)
  done

lemma liltTranslate_backoff_within:
  "within (liltMaxPolls div 2) (liltMaxPolls div 2) (\<lambda>ms. \<exists>k. ms = sleepTime k)
     (snd (liltTranslate_backoff service text initial))"
  unfolding liltTranslate_backoff_def snd_map_prod_id
  apply (rule andThen_trace [where P = "within 0 0 (\<lambda>ms. \<exists>k. ms = sleepTime k)"])
    apply (rule within_steps(1) [OF within_initial])
   apply (rule andThen_url_trace [where P = "within 0 0 (\<lambda>ms. \<exists>k. ms = sleepTime k)"])
     apply assumption
    apply (rule andThen_trace [where P = "within (liltMaxPolls div 2) 0 (\<lambda>ms. \<exists>k. ms = sleepTime k)"])
      apply (erule within_pollFor(1))
     apply (rule andThen_trace [where P = "within (liltMaxPolls div 2) 0 (\<lambda>ms. \<exists>k. ms = sleepTime k)"])
       apply (erule within_steps(5))
      apply (rule andThen_trace [where P = "within (liltMaxPolls div 2) 0 (\<lambda>ms. \<exists>k. ms = sleepTime k)"])
        apply (erule within_steps(2))
       apply (rule andThen_url_trace [where P = "within (liltMaxPolls div 2) 0 (\<lambda>ms. \<exists>k. ms = sleepTime k)"])
         apply assumption
        apply (rule andThen_trace [where P = "within (liltMaxPolls div 2) (liltMaxPolls div 2) (\<lambda>ms. \<exists>k. ms = sleepTime k)"])
          apply (erule within_pollFor(2))
         apply (rule andThen_trace [where P = "within (liltMaxPolls div 2) (liltMaxPolls div 2) (\<lambda>ms. \<exists>k. ms = sleepTime k)"])
           apply (erule within_steps(6))
          apply (erule within_steps(3))
         apply assumption
        apply assumption
       apply (erule within_mono; simp)
      apply (erule within_mono; simp)
     apply (erule within_mono; simp)
    apply (erule within_mono; simp)
   apply (erule within_mono; simp)
  apply (erule within_mono; simp)
  done



lemma polls_within_budget:
  "checkUploadPolls (snd (liltTranslate_fixed service text initial)) \<le> liltMaxPolls"
  "checkTranslatePolls (snd (liltTranslate_fixed service text initial)) \<le> liltMaxPolls"
  "checkUploadPolls (snd (liltTranslate_backoff service text initial)) \<le> liltMaxPolls div 2"
  "checkTranslatePolls (snd (liltTranslate_backoff service text initial)) \<le> liltMaxPolls div 2"
  using liltTranslate_fixed_within [of service "text"]
    liltTranslate_backoff_within [of service "text"]
  by (simp_all add: within_def)

lemma fixed_delays_constant:
  "list_all (\<lambda>ms. ms = 1000) (sleeps (snd (liltTranslate_fixed service text initial)))"
  using liltTranslate_fixed_within [of service "text"]
  by (simp add: within_def liltPollTimeMs_fixed_def)

lemma backoff_delays_capped:
  "list_all (\<lambda>ms. ms \<le> 3200) (sleeps (snd (liltTranslate_backoff service text initial)))"
proof -
  have "sleepTime k \<le> 3200" for k
    by (simp add: sleepTime_def liltPollTimeMs_backoff_def min_def)
  with liltTranslate_backoff_within [of service "text"] show ?thesis
    by (auto simp: within_def list_all_iff)
qed

section \<open>The claims about the workflow\<close>

text \<open>
  C2, evaluated on the backoff variant. With \<open>liltMaxPolls = 20\<close>, a check-upload
  phase in which no language is ever detected sends 10 poll requests, not 20, and so
  does a check-translation phase in which the status never gets ready: \<^verbatim>\<open>pollFor\<close>
  increments \<open>numPolls\<close> twice per iteration. (The fixed-delay variant sends
  \<open>liltMaxPolls\<close> requests in both phases: \<open>never_detected_runs\<close>, \<open>never_ready_runs\<close>;
  no run of either variant sends more: \<open>polls_within_budget\<close>.)
\<close>

theorem pollFor_stops_after_ten_polls:
  "liltMaxPolls = 20 \<and>
   requests (snd (liltTranslate_backoff
       (sampleService (\<lambda>i. detectedLang JNull) (\<lambda>i. statusInArray ''InProgress''))
       ''Bonjour'' initial)) =
     Upload ''Bonjour'' # replicate 10 (CheckUpload (JNum 7)) \<and>
   requests (snd (liltTranslate_backoff
       (sampleService (\<lambda>i. detectedLang (JStr ''fr'')) (\<lambda>i. statusInArray ''InProgress''))
       ''Bonjour'' initial)) =
     Upload ''Bonjour'' # CheckUpload (JNum 7) # Translate (MemoryId 69501) (JNum 7) #
       replicate 10 (CheckTranslate (JNum 9))"
  by (simp add: sample_never_detected sample_never_ready liltMaxPolls_def)



text \<open>
  C4, on the fixed-delay variant. When the upload succeeds with a file identifier, the
  check-upload polls detect \<^verbatim>\<open>fr\<close> on poll number \<open>k\<close> (from 0, within the retry
  budget), the translate request succeeds with a translation identifier, the status is
  \<^verbatim>\<open>ReadyForDownload\<close> on check-translation poll number \<open>n\<close> (from 0, so on the
  \<open>n + 1\<close>-th poll, within the retry budget) and the download succeeds, the click ends
  in the state Translated and the translation shown is the body of the download. The
  two identifiers are values that convert to strings, so that the URLs can be built.
\<close>

theorem liltTranslate_fixed_translates:
  assumes up: "answers service (Upload text) up" "reads up [''id''] fileId"
    and cu: "scripted service (CheckUpload fileId) cu"
      "\<forall>i<k. \<exists>v. looseEqNull v \<and> reads (cu i) [''0'', ''detected_lang''] v"
      "reads (cu k) [''0'', ''detected_lang''] (JStr ''fr'')"
      "k < liltMaxPolls"
    and tr: "answers service (Translate (MemoryId 69501) fileId) tr"
      "reads tr [''0'', ''id''] translationId"
    and ct: "scripted service (CheckTranslate translationId) ct"
      "\<forall>i<n. \<exists>v. v \<noteq> JStr ''ReadyForDownload'' \<and> reads (ct i) [''status''] v"
      "reads (ct n) [''status''] (JStr ''ReadyForDownload'')"
      "n < liltMaxPolls"
    and dl: "answers service (Download translationId) dl" "resp_ok dl"
    and pr: "printable fileId" "printable translationId"
  shows "onTranslateThisClick_fixed service text ui =
     (Inr (),
      ui\<lparr>status := Translated, translation := JStr (resp_text dl)\<rparr>,
      \<lparr>requests = Upload text # replicate (Suc k) (CheckUpload fileId) @
           Translate (MemoryId 69501) fileId # replicate (Suc n) (CheckTranslate translationId) @
           [Download translationId],
       warnings = [],
       sleeps = replicate ((if Suc k < liltMaxPolls then Suc k else k) +
                  (if Suc n < liltMaxPolls then Suc n else n)) liltPollTimeMs_fixed\<rparr>)"
proof -
  define st1 where "st1 = initial\<lparr>requests := requests initial @ [Upload text]\<rparr>"
  define st2 where "st2 = st1\<lparr>requests := requests st1 @ replicate (Suc k - 0) (CheckUpload fileId),
         sleeps := sleeps st1 @
           replicate (if Suc k < liltMaxPolls then Suc k - 0 else k - 0) liltPollTimeMs_fixed\<rparr>"
  define st4 where "st4 = st2\<lparr>requests := requests st2 @ [Translate (MemoryId 69501) fileId]\<rparr>"
  define st5 where "st5 = st4\<lparr>requests := requests st4 @ replicate (Suc n - 0) (CheckTranslate translationId),
         sleeps := sleeps st4 @
           replicate (if Suc n < liltMaxPolls then Suc n - 0 else n - 0) liltPollTimeMs_fixed\<rparr>"
  have 1: "uploadText service text initial = (Normal fileId, st1)"
    unfolding st1_def using up by (rule uploadText_ok)
  have 2: "checkUploadLoop service fileId JNull 0 st1 = (Normal (JStr ''fr''), st2)"
    unfolding st2_def using cu pr(1)
    by (intro checkUploadLoop_found[where cu=cu]) (auto simp: st1_def initial_def)
  have 3: "resolveMemory_fixed (JStr ''fr'') st2 = (Normal (MemoryId 69501), st2)"
    by (simp add: resolveMemory_fixed_def lookup_fr evaluated_def)
  have 4: "requestTranslation service (MemoryId 69501) fileId st2 = (Normal translationId, st4)"
    unfolding st4_def using tr pr(1) by (rule requestTranslation_ok)
  have 5: "checkTranslateLoop service translationId JNull 0 st4 =
      (Normal (JStr ''ReadyForDownload''), st5)"
    unfolding st5_def using ct pr(2)
    by (intro checkTranslateLoop_found[where ct=ct])
       (auto simp: st4_def st2_def st1_def initial_def count_list_append)
  have 6: "downloadTranslation service translationId st5 =
      (Returns (JStr (resp_text dl)), st5\<lparr>requests := requests st5 @ [Download translationId]\<rparr>)"
    using dl pr(2) by (simp add: downloadTranslation_answered)
  have "liltTranslate_fixed service text initial =
      (Inr (JStr (resp_text dl)), st5\<lparr>requests := requests st5 @ [Download translationId]\<rparr>)"
    by (simp add: liltTranslate_fixed_def 1 2 3 4 5 6 andThen_simps)
  then show ?thesis
    by (simp add: onTranslateThisClick_fixed_def onTranslateThisClick_def
        st5_def st4_def st2_def st1_def initial_def replicate_add)
qed

theorem liltTranslate_fixed_translates_witness:
  "onTranslateThisClick_fixed
     (sampleService (\<lambda>i. detectedLang (if i < 2 then JNull else JStr ''fr''))
        (\<lambda>i. statusInObject (if i < 3 then ''InProgress'' else ''ReadyForDownload'')))
     ''Bonjour'' mounted =
   (Inr (), \<lparr>status = Translated, translation = JStr ''Hello''\<rparr>,
    \<lparr>requests = [Upload ''Bonjour'', CheckUpload (JNum 7), CheckUpload (JNum 7), CheckUpload (JNum 7),
       Translate (MemoryId 69501) (JNum 7), CheckTranslate (JNum 9), CheckTranslate (JNum 9),
       CheckTranslate (JNum 9), CheckTranslate (JNum 9), Download (JNum 9)],
     warnings = [],
     sleeps = [1000, 1000, 1000, 1000, 1000, 1000, 1000]\<rparr>)"
proof -
  let ?cu = "\<lambda>i::nat. detectedLang (if i < 2 then JNull else JStr ''fr'')"
  let ?ct = "\<lambda>i::nat. statusInObject (if i < 3 then ''InProgress'' else ''ReadyForDownload'')"
  have pending: "\<forall>i<2. \<exists>v. looseEqNull v \<and> reads (?cu i) [''0'', ''detected_lang''] v"
    by (auto simp: sample_reads intro: exI[of _ JNull])
  have found: "reads (?cu 2) [''0'', ''detected_lang''] (JStr ''fr'')"
    by (simp add: sample_reads)
  have busy: "\<forall>i<3. \<exists>v. v \<noteq> JStr ''ReadyForDownload'' \<and> reads (?ct i) [''status''] v"
    by (auto simp: sample_reads intro!: exI[of _ "JStr ''InProgress''"])
  have ready: "reads (?ct 3) [''status''] (JStr ''ReadyForDownload'')"
    by (simp add: sample_reads)
  have "2 < liltMaxPolls" "3 < liltMaxPolls"
    by (simp_all add: liltMaxPolls_def)
  from liltTranslate_fixed_translates [OF sample_facts(1,2,3) pending found this(1)
      sample_facts(4,5,6) busy ready this(2) sample_facts(7,8) sample_printable,
      of "''Bonjour''" mounted]
  show ?thesis
    by (simp add: mounted_def liltMaxPolls_def liltPollTimeMs_fixed_def sample_facts
        numeral_2_eq_2 numeral_3_eq_3)
qed

text \<open>
  C5. If the upload request gets a response that is not a success, both variants of
  the workflow end Failed, having sent the upload request and nothing else.
\<close>

theorem upload_failure_aborts:
  assumes "service [] (Upload text) = Some r" and "\<not> resp_ok r"
  shows "onTranslateThisClick_fixed service text ui =
       (Inr (), ui\<lparr>status := Failed, translation := JNull\<rparr>,
        \<lparr>requests = [Upload text], warnings = [FailedUploading], sleeps = []\<rparr>) \<and>
     onTranslateThisClick_backoff service text ui =
       (Inr (), ui\<lparr>status := Failed, translation := JNull\<rparr>,
        \<lparr>requests = [Upload text], warnings = [FailedUploading], sleeps = []\<rparr>)"
proof -
  have up: "uploadText service text initial =
      (Returns JNull, \<lparr>requests = [Upload text], warnings = [FailedUploading], sleeps = []\<rparr>)"
    using assms by (subst uploadText_failed[where r=r]) (simp_all add: initial_def)
  have "liltTranslate_fixed service text initial =
      (Inr JNull, \<lparr>requests = [Upload text], warnings = [FailedUploading], sleeps = []\<rparr>)"
    by (simp add: liltTranslate_fixed_def up andThen_simps)
  moreover have "liltTranslate_backoff service text initial =
      (Inr JNull, \<lparr>requests = [Upload text], warnings = [FailedUploading], sleeps = []\<rparr>)"
    by (simp add: liltTranslate_backoff_def up andThen_simps)
  ultimately show ?thesis
    by (simp add: onTranslateThisClick_fixed_def onTranslateThisClick_backoff_def
        onTranslateThisClick_returned)
qed

theorem upload_failure_aborts_witness:
  "\<not> resp_ok notOk \<and>
   onTranslateThisClick_fixed failingService ''Bonjour'' mounted =
     (Inr (), \<lparr>status = Failed, translation = JNull\<rparr>,
      \<lparr>requests = [Upload ''Bonjour''], warnings = [FailedUploading], sleeps = []\<rparr>) \<and>
   onTranslateThisClick_backoff failingService ''Bonjour'' mounted =
     (Inr (), \<lparr>status = Failed, translation = JNull\<rparr>,
      \<lparr>requests = [Upload ''Bonjour''], warnings = [FailedUploading], sleeps = []\<rparr>)"
proof -
  have r: "failingService [] (Upload ''Bonjour'') = Some notOk"
    by (simp add: failingService_def)
  have n: "\<not> resp_ok notOk"
    by (simp add: notOk_def)
  from upload_failure_aborts [of failingService "''Bonjour''" notOk mounted, OF r n] n
  show ?thesis
    by (simp add: mounted_def)
qed

text \<open>
  C6, evaluated on both variants. The service detects the language code
  \<^verbatim>\<open>constructor\<close>, which is no key of \<open>liltMemories\<close>. The backoff variant looks it up
  with \<^verbatim>\<open>liltMemories[detectedLang]\<close>, finds the member inherited from
  \<^verbatim>\<open>Object.prototype\<close>, sends the translate request and goes on to the download. The
  fixed-delay variant asks \<^verbatim>\<open>hasOwnProperty\<close> and ends Failed without a translate
  request.
\<close>

theorem inherited_property_reaches_translate:
  "''constructor'' \<notin> fst ` set liltMemories \<and>
   liltTranslate_backoff
     (sampleService (\<lambda>i. detectedLang (JStr ''constructor''))
        (\<lambda>i. statusInArray ''ReadyForDownload''))
     ''Bonjour'' initial =
     (Inr (JStr ''Hello''),
      \<lparr>requests = [Upload ''Bonjour'', CheckUpload (JNum 7),
         Translate (Inherited ''constructor'') (JNum 7), CheckTranslate (JNum 9),
         Download (JNum 9)],
       warnings = [], sleeps = []\<rparr>) \<and>
   liltTranslate_fixed
     (sampleService (\<lambda>i. detectedLang (JStr ''constructor''))
        (\<lambda>i. statusInArray ''ReadyForDownload''))
     ''Bonjour'' initial =
     (Inr JNull,
      \<lparr>requests = [Upload ''Bonjour'', CheckUpload (JNum 7)],
       warnings = [NotSetUp (JStr ''constructor'')], sleeps = [1000]\<rparr>)"
  by (simp add: liltTranslate_backoff_def liltTranslate_fixed_def uploadText_def fetch_def
      sampleService_def okJson_def okText_def detectedLang_def statusInArray_def
      awaited_def andThen_simps jsonOf_def evaluated_def initial_def pollFor_def
      pollForLoop.simps checkUploadLoop.simps liltMaxPolls_def checkDetectedLang_def orNull_def
      resolveMemory_backoff_def resolveMemory_fixed_def hasOwnProperty_def
      lookupMemory_def liltMemories_def objectPrototypeProps_def
      urlFor_def translateUrl_def replacerThrows_def
      requestTranslation_def checkReadyForDownload_def requireReady_def downloadTranslation_def
      sleep_def console_warn_def liltPollTimeMs_fixed_def)

text \<open>
  C7, as amended. After a successful upload, with a file identifier that converts to a
  string, a run in which no language is detected, or the language detected is \<^verbatim>\<open>und\<close>
  or another code that is not in the table, ends Failed without a translate request,
  in each variant as follows.

  The fixed-delay variant reads up to \<open>liltMaxPolls\<close> polls.
  \<^item> If every poll reads \<^verbatim>\<open>null\<close> or \<^verbatim>\<open>undefined\<close>, it logs "API was unable to detect
    language for translation." when the last poll read \<^verbatim>\<open>null\<close>, and "Not set up to
    translate from undefined." when the last poll read \<^verbatim>\<open>undefined\<close>.
  \<^item> If poll number \<open>k\<close> (from 0, any \<open>k < liltMaxPolls\<close>) is the first to read a
    language, and the language is a string that is no key of the table, it logs "Not
    set up to translate from" with the code. This is what it logs for \<^verbatim>\<open>und\<close>, for
    which it has no case of its own.

  The backoff variant reads up to \<open>liltMaxPolls div 2\<close> polls.
  \<^item> If every one of them reads \<^verbatim>\<open>null\<close> or \<^verbatim>\<open>undefined\<close>, it logs "Gave up polling"
    and "API was unable to detect language for translation.", whatever a later poll
    would have read.
  \<^item> If poll number \<open>k\<close> (any \<open>k\<close> with \<open>2 * k < liltMaxPolls\<close>) is the first to read a
    language and it is \<^verbatim>\<open>und\<close>, it logs "Unable to detect the language of this
    message.".
  \<^item> If that language is another string that is neither a key of the table nor a
    property name of \<^verbatim>\<open>Object.prototype\<close>, it logs "Not set up to translate from" with
    the code.
\<close>

theorem detection_failure_aborts:
  assumes up: "answers service (Upload text) up" "reads up [''id''] fileId"
    and cu: "scripted service (CheckUpload fileId) cu"
    and pr: "printable fileId"
  shows
    "((\<forall>i<liltMaxPolls. \<exists>v. looseEqNull v \<and> reads (cu i) [''0'', ''detected_lang''] v) \<and>
      reads (cu (liltMaxPolls - Suc 0)) [''0'', ''detected_lang''] lastRead \<longrightarrow>
        onTranslateThisClick_fixed service text ui =
          (Inr (), ui\<lparr>status := Failed, translation := JNull\<rparr>,
           \<lparr>requests = Upload text # replicate liltMaxPolls (CheckUpload fileId),
            warnings = [if lastRead = JNull then ApiUnableToDetect else NotSetUp lastRead],
            sleeps = replicate (liltMaxPolls - Suc 0) liltPollTimeMs_fixed\<rparr>)) \<and>
     ((\<forall>i<k. \<exists>v. looseEqNull v \<and> reads (cu i) [''0'', ''detected_lang''] v) \<and>
      reads (cu k) [''0'', ''detected_lang''] (JStr lang) \<and> k < liltMaxPolls \<and>
      lang \<notin> fst ` set liltMemories \<longrightarrow>
        onTranslateThisClick_fixed service text ui =
          (Inr (), ui\<lparr>status := Failed, translation := JNull\<rparr>,
           \<lparr>requests = Upload text # replicate (Suc k) (CheckUpload fileId),
            warnings = [NotSetUp (JStr lang)],
            sleeps = replicate (if Suc k < liltMaxPolls then Suc k else k)
                       liltPollTimeMs_fixed\<rparr>)) \<and>
     ((\<forall>i. 2 * i < liltMaxPolls \<longrightarrow>
          (\<exists>v. looseEqNull v \<and> reads (cu i) [''0'', ''detected_lang''] v)) \<longrightarrow>
        onTranslateThisClick_backoff service text ui =
          (Inr (), ui\<lparr>status := Failed, translation := JNull\<rparr>,
           \<lparr>requests = Upload text # replicate (liltMaxPolls div 2) (CheckUpload fileId),
            warnings = [GaveUpPolling (CheckUpload fileId), ApiUnableToDetect],
            sleeps = map (\<lambda>j. sleepTime (2 * j)) [0..<liltMaxPolls div 2]\<rparr>)) \<and>
     ((\<forall>i<k. \<exists>v. looseEqNull v \<and> reads (cu i) [''0'', ''detected_lang''] v) \<and>
      reads (cu k) [''0'', ''detected_lang''] (JStr ''und'') \<and> 2 * k < liltMaxPolls \<longrightarrow>
        onTranslateThisClick_backoff service text ui =
          (Inr (), ui\<lparr>status := Failed, translation := JNull\<rparr>,
           \<lparr>requests = Upload text # replicate (Suc k) (CheckUpload fileId),
            warnings = [UnableToDetectLanguage],
            sleeps = map (\<lambda>j. sleepTime (2 * j)) [0..<k]\<rparr>)) \<and>
     ((\<forall>i<k. \<exists>v. looseEqNull v \<and> reads (cu i) [''0'', ''detected_lang''] v) \<and>
      reads (cu k) [''0'', ''detected_lang''] (JStr lang) \<and> 2 * k < liltMaxPolls \<and>
      lang \<notin> fst ` set liltMemories \<and> lang \<notin> set objectPrototypeProps \<and> lang \<noteq> ''und'' \<longrightarrow>
        onTranslateThisClick_backoff service text ui =
          (Inr (), ui\<lparr>status := Failed, translation := JNull\<rparr>,
           \<lparr>requests = Upload text # replicate (Suc k) (CheckUpload fileId),
            warnings = [NotSetUp (JStr lang)],
            sleeps = map (\<lambda>j. sleepTime (2 * j)) [0..<k]\<rparr>))"
proof (intro conjI impI)
  assume absent: "(\<forall>i<liltMaxPolls. \<exists>v. looseEqNull v \<and> reads (cu i) [''0'', ''detected_lang''] v) \<and>
      reads (cu (liltMaxPolls - Suc 0)) [''0'', ''detected_lang''] lastRead"
  then have pending: "\<forall>i<liltMaxPolls. \<exists>v. looseEqNull v \<and> reads (cu i) [''0'', ''detected_lang''] v"
    and last: "reads (cu (liltMaxPolls - Suc 0)) [''0'', ''detected_lang''] lastRead"
    by blast+
  from fixed_never_detected_run [OF up cu pending last pr]
  show "onTranslateThisClick_fixed service text ui =
          (Inr (), ui\<lparr>status := Failed, translation := JNull\<rparr>,
           \<lparr>requests = Upload text # replicate liltMaxPolls (CheckUpload fileId),
            warnings = [if lastRead = JNull then ApiUnableToDetect else NotSetUp lastRead],
            sleeps = replicate (liltMaxPolls - Suc 0) liltPollTimeMs_fixed\<rparr>)"
    by (rule click_failed)
next
  assume other: "(\<forall>i<k. \<exists>v. looseEqNull v \<and> reads (cu i) [''0'', ''detected_lang''] v) \<and>
      reads (cu k) [''0'', ''detected_lang''] (JStr lang) \<and> k < liltMaxPolls \<and>
      lang \<notin> fst ` set liltMemories"
  then have f: "resolveMemory_fixed (JStr lang) =
      (\<lambda>st. (Returns JNull, st\<lparr>warnings := warnings st @ [NotSetUp (JStr lang)]\<rparr>))"
    by (simp add: fun_eq_iff resolveMemory_fixed_unsupported hasOwnProperty_JStr)
  from other have "liltTranslate_fixed service text initial =
      (Inr JNull, \<lparr>requests = Upload text # replicate (Suc k) (CheckUpload fileId),
            warnings = [NotSetUp (JStr lang)],
            sleeps = replicate (if Suc k < liltMaxPolls then Suc k else k)
                       liltPollTimeMs_fixed\<rparr>)"
    by (intro fixed_rejected_run [OF up cu _ _ _ _ pr f]) simp_all
  then show "onTranslateThisClick_fixed service text ui =
          (Inr (), ui\<lparr>status := Failed, translation := JNull\<rparr>,
           \<lparr>requests = Upload text # replicate (Suc k) (CheckUpload fileId),
            warnings = [NotSetUp (JStr lang)],
            sleeps = replicate (if Suc k < liltMaxPolls then Suc k else k)
                       liltPollTimeMs_fixed\<rparr>)"
    by (rule click_failed)
next
  assume pending: "\<forall>i. 2 * i < liltMaxPolls \<longrightarrow>
      (\<exists>v. looseEqNull v \<and> reads (cu i) [''0'', ''detected_lang''] v)"
  from backoff_gives_up_run [OF up cu pending pr]
  show "onTranslateThisClick_backoff service text ui =
          (Inr (), ui\<lparr>status := Failed, translation := JNull\<rparr>,
           \<lparr>requests = Upload text # replicate (liltMaxPolls div 2) (CheckUpload fileId),
            warnings = [GaveUpPolling (CheckUpload fileId), ApiUnableToDetect],
            sleeps = map (\<lambda>j. sleepTime (2 * j)) [0..<liltMaxPolls div 2]\<rparr>)"
    by (rule click_failed)
next
  assume und: "(\<forall>i<k. \<exists>v. looseEqNull v \<and> reads (cu i) [''0'', ''detected_lang''] v) \<and>
      reads (cu k) [''0'', ''detected_lang''] (JStr ''und'') \<and> 2 * k < liltMaxPolls"
  have f: "resolveMemory_fixed (JStr ''und'') =
      (\<lambda>st. (Returns JNull, st\<lparr>warnings := warnings st @ [NotSetUp (JStr ''und'')]\<rparr>))"
    and b: "resolveMemory_backoff (JStr ''und'') =
      (\<lambda>st. (Returns JNull, st\<lparr>warnings := warnings st @ [UnableToDetectLanguage]\<rparr>))"
    by (simp_all add: fun_eq_iff resolveMemory_und)
  have "liltTranslate_backoff service text initial =
      (Inr JNull, \<lparr>requests = Upload text # replicate (Suc k) (CheckUpload fileId),
            warnings = [UnableToDetectLanguage],
            sleeps = map (\<lambda>j. sleepTime (2 * j)) [0..<k]\<rparr>)"
    using und rejected_language_runs(2) [OF up cu _ _ _ _ pr f b, of k]
    by simp
  then show "onTranslateThisClick_backoff service text ui =
          (Inr (), ui\<lparr>status := Failed, translation := JNull\<rparr>,
           \<lparr>requests = Upload text # replicate (Suc k) (CheckUpload fileId),
            warnings = [UnableToDetectLanguage],
            sleeps = map (\<lambda>j. sleepTime (2 * j)) [0..<k]\<rparr>)"
    by (rule click_failed)
next
  assume other: "(\<forall>i<k. \<exists>v. looseEqNull v \<and> reads (cu i) [''0'', ''detected_lang''] v) \<and>
      reads (cu k) [''0'', ''detected_lang''] (JStr lang) \<and> 2 * k < liltMaxPolls \<and>
      lang \<notin> fst ` set liltMemories \<and> lang \<notin> set objectPrototypeProps \<and> lang \<noteq> ''und''"
  then have f: "resolveMemory_fixed (JStr lang) =
      (\<lambda>st. (Returns JNull, st\<lparr>warnings := warnings st @ [NotSetUp (JStr lang)]\<rparr>))"
    by (simp add: fun_eq_iff resolveMemory_fixed_unsupported hasOwnProperty_JStr)
  from other have b: "resolveMemory_backoff (JStr lang) =
      (\<lambda>st. (Returns JNull, st\<lparr>warnings := warnings st @ [NotSetUp (JStr lang)]\<rparr>))"
    by (simp add: fun_eq_iff resolveMemory_backoff_unsupported lookupMemory_JStr)
  have "liltTranslate_backoff service text initial =
      (Inr JNull, \<lparr>requests = Upload text # replicate (Suc k) (CheckUpload fileId),
            warnings = [NotSetUp (JStr lang)],
            sleeps = map (\<lambda>j. sleepTime (2 * j)) [0..<k]\<rparr>)"
    using other rejected_language_runs(2) [OF up cu _ _ _ _ pr f b, of k]
    by simp
  then show "onTranslateThisClick_backoff service text ui =
          (Inr (), ui\<lparr>status := Failed, translation := JNull\<rparr>,
           \<lparr>requests = Upload text # replicate (Suc k) (CheckUpload fileId),
            warnings = [NotSetUp (JStr lang)],
            sleeps = map (\<lambda>j. sleepTime (2 * j)) [0..<k]\<rparr>)"
    by (rule click_failed)
qed

theorem detection_failure_aborts_witness:
  "onTranslateThisClick_fixed
     (sampleService (\<lambda>i. detectedLang JNull) (\<lambda>i. statusInArray ''InProgress''))
     ''Bonjour'' mounted =
     (Inr (), \<lparr>status = Failed, translation = JNull\<rparr>,
      \<lparr>requests = Upload ''Bonjour'' # replicate 20 (CheckUpload (JNum 7)),
       warnings = [ApiUnableToDetect],
       sleeps = replicate 19 1000\<rparr>) \<and>
   onTranslateThisClick_backoff
     (sampleService (\<lambda>i. detectedLang JNull) (\<lambda>i. statusInArray ''InProgress''))
     ''Bonjour'' mounted =
     (Inr (), \<lparr>status = Failed, translation = JNull\<rparr>,
      \<lparr>requests = Upload ''Bonjour'' # replicate 10 (CheckUpload (JNum 7)),
       warnings = [GaveUpPolling (CheckUpload (JNum 7)), ApiUnableToDetect],
       sleeps = [200, 800, 3200, 3200, 3200, 3200, 3200, 3200, 3200, 3200]\<rparr>) \<and>
   onTranslateThisClick_fixed
     (sampleService (\<lambda>i. detectedLang JUndefined) (\<lambda>i. statusInArray ''InProgress''))
     ''Bonjour'' mounted =
     (Inr (), \<lparr>status = Failed, translation = JNull\<rparr>,
      \<lparr>requests = Upload ''Bonjour'' # replicate 20 (CheckUpload (JNum 7)),
       warnings = [NotSetUp JUndefined],
       sleeps = replicate 19 1000\<rparr>) \<and>
   onTranslateThisClick_fixed
     (sampleService (\<lambda>i. detectedLang (JStr ''und'')) (\<lambda>i. statusInArray ''InProgress''))
     ''Bonjour'' mounted =
     (Inr (), \<lparr>status = Failed, translation = JNull\<rparr>,
      \<lparr>requests = [Upload ''Bonjour'', CheckUpload (JNum 7)],
       warnings = [NotSetUp (JStr ''und'')], sleeps = [1000]\<rparr>) \<and>
   onTranslateThisClick_backoff
     (sampleService (\<lambda>i. detectedLang (JStr ''und'')) (\<lambda>i. statusInArray ''InProgress''))
     ''Bonjour'' mounted =
     (Inr (), \<lparr>status = Failed, translation = JNull\<rparr>,
      \<lparr>requests = [Upload ''Bonjour'', CheckUpload (JNum 7)],
       warnings = [UnableToDetectLanguage], sleeps = []\<rparr>) \<and>
   onTranslateThisClick_fixed
     (sampleService (\<lambda>i. detectedLang (JStr ''es'')) (\<lambda>i. statusInArray ''InProgress''))
     ''Hola'' mounted =
     (Inr (), \<lparr>status = Failed, translation = JNull\<rparr>,
      \<lparr>requests = [Upload ''Hola'', CheckUpload (JNum 7)],
       warnings = [NotSetUp (JStr ''es'')], sleeps = [1000]\<rparr>) \<and>
   onTranslateThisClick_backoff
     (sampleService (\<lambda>i. detectedLang (JStr ''es'')) (\<lambda>i. statusInArray ''InProgress''))
     ''Hola'' mounted =
     (Inr (), \<lparr>status = Failed, translation = JNull\<rparr>,
      \<lparr>requests = [Upload ''Hola'', CheckUpload (JNum 7)],
       warnings = [NotSetUp (JStr ''es'')], sleeps = []\<rparr>) \<and>
   onTranslateThisClick_fixed
     (sampleService (\<lambda>i. detectedLang (if i < 15 then JNull else JStr ''und''))
        (\<lambda>i. statusInArray ''InProgress''))
     ''Bonjour'' mounted =
     (Inr (), \<lparr>status = Failed, translation = JNull\<rparr>,
      \<lparr>requests = Upload ''Bonjour'' # replicate 16 (CheckUpload (JNum 7)),
       warnings = [NotSetUp (JStr ''und'')], sleeps = replicate 16 1000\<rparr>) \<and>
   onTranslateThisClick_backoff
     (sampleService (\<lambda>i. detectedLang (if i < 15 then JNull else JStr ''und''))
        (\<lambda>i. statusInArray ''InProgress''))
     ''Bonjour'' mounted =
     (Inr (), \<lparr>status = Failed, translation = JNull\<rparr>,
      \<lparr>requests = Upload ''Bonjour'' # replicate 10 (CheckUpload (JNum 7)),
       warnings = [GaveUpPolling (CheckUpload (JNum 7)), ApiUnableToDetect],
       sleeps = [200, 800, 3200, 3200, 3200, 3200, 3200, 3200, 3200, 3200]\<rparr>) \<and>
   onTranslateThisClick_fixed
     (sampleService (\<lambda>i. detectedLang (if i < 19 then JNull else JStr ''und''))
        (\<lambda>i. statusInArray ''InProgress''))
     ''Bonjour'' mounted =
     (Inr (), \<lparr>status = Failed, translation = JNull\<rparr>,
      \<lparr>requests = Upload ''Bonjour'' # replicate 20 (CheckUpload (JNum 7)),
       warnings = [NotSetUp (JStr ''und'')], sleeps = replicate 19 1000\<rparr>)"
proof -
  let ?ct = "\<lambda>i::nat. statusInArray ''InProgress''"
  let ?late = "\<lambda>i::nat. detectedLang (if i < 15 then JNull else JStr ''und'')"
  let ?last = "\<lambda>i::nat. detectedLang (if i < 19 then JNull else JStr ''und'')"
  note absent = detection_failure_aborts
    [where service="sampleService (\<lambda>i. detectedLang JNull) ?ct" and cu="\<lambda>i. detectedLang JNull"
      and ui=mounted and k=0 and lang="''es''" and lastRead=JNull,
      OF sample_facts(1,2,3) sample_printable(1), of "''Bonjour''"]
  note missing = detection_failure_aborts
    [where service="sampleService (\<lambda>i. detectedLang JUndefined) ?ct"
      and cu="\<lambda>i. detectedLang JUndefined"
      and ui=mounted and k=0 and lang="''es''" and lastRead=JUndefined,
      OF sample_facts(1,2,3) sample_printable(1), of "''Bonjour''"]
  note und = detection_failure_aborts
    [where service="sampleService (\<lambda>i. detectedLang (JStr ''und'')) ?ct"
      and cu="\<lambda>i. detectedLang (JStr ''und'')"
      and ui=mounted and k=0 and lang="''und''" and lastRead=JNull,
      OF sample_facts(1,2,3) sample_printable(1), of "''Bonjour''"]
  note es = detection_failure_aborts
    [where service="sampleService (\<lambda>i. detectedLang (JStr ''es'')) ?ct"
      and cu="\<lambda>i. detectedLang (JStr ''es'')"
      and ui=mounted and k=0 and lang="''es''" and lastRead=JNull,
      OF sample_facts(1,2,3) sample_printable(1), of "''Hola''"]
  note late = detection_failure_aborts
    [where service="sampleService ?late ?ct" and cu="?late"
      and ui=mounted and k=15 and lang="''und''" and lastRead=JNull,
      OF sample_facts(1,2,3) sample_printable(1), of "''Bonjour''"]
  note last = detection_failure_aborts
    [where service="sampleService ?last ?ct" and cu="?last"
      and ui=mounted and k=19 and lang="''und''" and lastRead=JNull,
      OF sample_facts(1,2,3) sample_printable(1), of "''Bonjour''"]
  have not_table: "''es'' \<notin> fst ` set liltMemories" "''es'' \<notin> set objectPrototypeProps"
    "''und'' \<notin> fst ` set liltMemories"
    by (simp_all add: liltMemories_def objectPrototypeProps_def)
  have early: "2 * i < liltMaxPolls \<Longrightarrow> i < 15" for i
    by (simp add: liltMaxPolls_def)
  from absent missing und es late last not_table early show ?thesis
    by (simp add: reads_detectedLang mounted_def liltMaxPolls_def liltPollTimeMs_fixed_def
        sleepTime_def liltPollTimeMs_backoff_def upt_conv_Cons replicate_numeral_Cons)
qed

text \<open>
  C7 as stated fails on the fixed-delay variant: it has no case for \<^verbatim>\<open>und\<close>, and logs
  for it the diagnostic of an unsupported language, the one it logs for \<^verbatim>\<open>es\<close>. (The
  backoff variant logs a diagnostic of its own.)
\<close>

theorem und_logged_as_unsupported_counterexample:
  "warnings (snd (liltTranslate_fixed
       (sampleService (\<lambda>i. detectedLang (JStr ''und'')) (\<lambda>i. statusInArray ''InProgress''))
       ''Bonjour'' initial)) = [NotSetUp (JStr ''und'')] \<and>
   warnings (snd (liltTranslate_fixed
       (sampleService (\<lambda>i. detectedLang (JStr ''es'')) (\<lambda>i. statusInArray ''InProgress''))
       ''Hola'' initial)) = [NotSetUp (JStr ''es'')] \<and>
   warnings (snd (liltTranslate_backoff
       (sampleService (\<lambda>i. detectedLang (JStr ''und'')) (\<lambda>i. statusInArray ''InProgress''))
       ''Bonjour'' initial)) = [UnableToDetectLanguage]"
  by (simp add: liltTranslate_backoff_def liltTranslate_fixed_def uploadText_def fetch_def
      sampleService_def okJson_def detectedLang_def
      awaited_def andThen_simps jsonOf_def evaluated_def initial_def pollFor_def
      pollForLoop.simps checkUploadLoop.simps liltMaxPolls_def checkDetectedLang_def orNull_def
      resolveMemory_backoff_def resolveMemory_fixed_def hasOwnProperty_def
      lookupMemory_def liltMemories_def urlFor_def
      sleep_def console_warn_def liltPollTimeMs_fixed_def)

text \<open>
  C8, evaluated on the backoff variant. When no language is ever detected, the delays
  slept after the successive polls are 200, 800, 3200, 3200, ... milliseconds: they
  are \<open>sleepTime 0\<close>, \<open>sleepTime 2\<close>, \<open>sleepTime 4\<close>, ..., because \<open>numPolls\<close> is
  incremented twice per poll. The delay after the second poll is 800 ms, not the
  \<open>sleepTime 1 = 400\<close> of a delay that doubles from poll to poll.
\<close>

theorem backoff_delays_quadruple:
  "sleeps (snd (liltTranslate_backoff
       (sampleService (\<lambda>i. detectedLang JNull) (\<lambda>i. statusInArray ''InProgress''))
       ''Bonjour'' initial)) =
     [200, 800, 3200, 3200, 3200, 3200, 3200, 3200, 3200, 3200] \<and>
   sleepTime 0 = 200 \<and> sleepTime 1 = 400 \<and> sleepTime 2 = 800"
  by (simp add: sample_never_detected sleepTime_def liltPollTimeMs_backoff_def)

text \<open>
  \<open>sleepTime\<close> itself computes the capped power of two; no delay of the backoff
  variant exceeds 3200 ms (\<open>backoff_delays_capped\<close>) and every delay of the
  fixed-delay variant is 1000 ms (\<open>fixed_delays_constant\<close>).
\<close>

lemma sleepTime_formula:
  "sleepTime pollNumber = 100 * min 32 (2 ^ (pollNumber + 1))" "sleepTime pollNumber \<le> 3200"
  by (simp_all add: sleepTime_def liltPollTimeMs_backoff_def min_def)





text \<open>
  Two more bodies on which the workflow throws, which is why a well-formed service has
  to exclude them. A detected language named \<^verbatim>\<open>valueOf\<close> passes the test
  \<^verbatim>\<open>!memoryId\<close> of the backoff variant, and \<^verbatim>\<open>replace\<close> then calls the inherited
  function without a receiver (the fixed-delay variant turns the language down). A file
  identifier that is an object with a \<^verbatim>\<open>toString\<close> property cannot be put into the
  check-upload URL, in either variant.
\<close>

lemma exotic_values_throw:
  "liltTranslate_backoff
     (sampleService (\<lambda>i. detectedLang (JStr ''valueOf'')) (\<lambda>i. statusInArray ''ReadyForDownload''))
     ''Bonjour'' initial =
     (Inl TypeError,
      \<lparr>requests = [Upload ''Bonjour'', CheckUpload (JNum 7)], warnings = [], sleeps = []\<rparr>)"
  "liltTranslate_fixed
     (sampleService (\<lambda>i. detectedLang (JStr ''valueOf'')) (\<lambda>i. statusInArray ''ReadyForDownload''))
     ''Bonjour'' initial =
     (Inr JNull,
      \<lparr>requests = [Upload ''Bonjour'', CheckUpload (JNum 7)],
       warnings = [NotSetUp (JStr ''valueOf'')], sleeps = [1000]\<rparr>)"
  "liltTranslate_fixed (\<lambda>h q. Some (okJson (JObj [(''id'', JObj [(''toString'', JNum 1)])])))
     ''Bonjour'' initial =
     (Inl TypeError, \<lparr>requests = [Upload ''Bonjour''], warnings = [], sleeps = []\<rparr>)"
  "liltTranslate_backoff (\<lambda>h q. Some (okJson (JObj [(''id'', JObj [(''toString'', JNum 1)])])))
     ''Bonjour'' initial =
     (Inl TypeError, \<lparr>requests = [Upload ''Bonjour''], warnings = [], sleeps = []\<rparr>)"
  by (simp_all add: liltTranslate_backoff_def liltTranslate_fixed_def uploadText_def fetch_def
      sampleService_def okJson_def okText_def detectedLang_def statusInArray_def
      awaited_def andThen_simps jsonOf_def evaluated_def initial_def pollFor_def
      pollForLoop.simps checkUploadLoop.simps liltMaxPolls_def checkDetectedLang_def orNull_def
      resolveMemory_backoff_def resolveMemory_fixed_def hasOwnProperty_def
      lookupMemory_def liltMemories_def objectPrototypeProps_def
      urlFor_def translateUrl_def replacerThrows_def
      requestTranslation_def sleep_def console_warn_def liltPollTimeMs_fixed_def)

end
